theory Spec2Isabelle
  imports Main "HOL-Library.Sublist" "HOL-Library.AList"
begin

section \<open>The folder backend of knowledge-repo and its hook-aware commit\<close>

text \<open>
  This theory embeds \<^verbatim>\<open>knowledge_repo/repositories/folder.py\<close> (the class
  \<^verbatim>\<open>FolderKnowledgeRepository\<close>) and \<^verbatim>\<open>knowledge_repo/utils/git.py\<close>
  (\<^verbatim>\<open>run_commit_hook\<close>, \<^verbatim>\<open>IndexFileWrapper.commit\<close>).

  The Python code works on the file system through \<^verbatim>\<open>os\<close>, \<^verbatim>\<open>os.path\<close> and
  \<^verbatim>\<open>shutil\<close>. The file system is a tree of plain files and directories; a path is
  the list of its name components, read from the root. Symbolic links, permissions and
  special files are left out. Post paths, reference names and \<^verbatim>\<open>parent\<close> arguments are
  relative paths made of plain names (no empty component, no \<^verbatim>\<open>.\<close> or \<^verbatim>\<open>..\<close>), as the
  data model of the repository has them; the repository's own path is absolute, since
  the \<^verbatim>\<open>path\<close> setter stores \<^verbatim>\<open>os.path.abspath(...)\<close>.
\<close>

subsection \<open>Bytes, paths, the file system\<close>

type_synonym bytes = string

type_synonym path = "string list"

datatype node = File bytes | Dir "(string \<times> node) list"

text \<open>Python exceptions that the modelled code can raise.\<close>

datatype error =
    FileNotFoundError
  | NotADirectoryError
  | IsADirectoryError
  | FileExistsError
  | ValueError
  | KeyError
  | NotImplementedError

text \<open>The node a path names, if any. Below a plain file nothing is found.\<close>

fun lookup :: "node \<Rightarrow> path \<Rightarrow> node option" where
  "lookup n [] = Some n"
| "lookup (File b) (c # cs) = None"
| "lookup (Dir es) (c # cs) =
     (case map_of es c of None \<Rightarrow> None | Some n \<Rightarrow> lookup n cs)"

text \<open>\<^verbatim>\<open>os.path.exists\<close>, \<^verbatim>\<open>os.path.isfile\<close>, \<^verbatim>\<open>os.path.isdir\<close>: none of them raises.\<close>

definition exists :: "node \<Rightarrow> path \<Rightarrow> bool" where
  "exists fs p = (lookup fs p \<noteq> None)"

definition isfile :: "node \<Rightarrow> path \<Rightarrow> bool" where
  "isfile fs p = (case lookup fs p of Some (File b) \<Rightarrow> True | _ \<Rightarrow> False)"

definition isdir :: "node \<Rightarrow> path \<Rightarrow> bool" where
  "isdir fs p = (case lookup fs p of Some (Dir es) \<Rightarrow> True | _ \<Rightarrow> False)"

text \<open>
  \<open>put fs p n\<close> binds the last name of \<open>p\<close> to \<open>n\<close> in the directory that holds it, a new
  entry or in place of the old one; \<open>None\<close> when that directory is not there.
\<close>

fun put :: "node \<Rightarrow> path \<Rightarrow> node \<Rightarrow> node option" where
  "put n [] new = Some new"
| "put (File b) (c # cs) new = None"
| "put (Dir es) [c] new = Some (Dir (AList.update c new es))"
| "put (Dir es) (c # c' # cs) new =
     (case map_of es c of
        None \<Rightarrow> None
      | Some n \<Rightarrow>
          (case put n (c' # cs) new of
             None \<Rightarrow> None
           | Some n' \<Rightarrow> Some (Dir (AList.update c n' es))))"

text \<open>\<open>unlink fs p\<close> takes the entry for the last name of \<open>p\<close> out of its directory.\<close>

fun unlink :: "node \<Rightarrow> path \<Rightarrow> node" where
  "unlink n [] = n"
| "unlink (File b) (c # cs) = File b"
| "unlink (Dir es) [c] = Dir (AList.delete c es)"
| "unlink (Dir es) (c # c' # cs) =
     (case map_of es c of
        None \<Rightarrow> Dir es
      | Some n \<Rightarrow> Dir (AList.update c (unlink n (c' # cs)) es))"

text \<open>
  Modelled from the spec: \<^verbatim>\<open>write_binary(path, data)\<close> of
  \<^verbatim>\<open>knowledge_repo/utils/files.py\<close>, which is not among the sources. A write
  "overwrites or creates a reference": the file is opened for writing in binary mode
  and receives the data. Opening fails on a directory, and when the containing
  directory is missing or is a file.
\<close>

definition write_binary :: "node \<Rightarrow> path \<Rightarrow> bytes \<Rightarrow> (error + unit) \<times> node" where
  "write_binary fs p data =
     (if isdir fs p then (Inl IsADirectoryError, fs)
      else if isfile fs (butlast p) then (Inl NotADirectoryError, fs)
      else if \<not> isdir fs (butlast p) then (Inl FileNotFoundError, fs)
      else (case put fs p (File data) of
              None \<Rightarrow> (Inl FileNotFoundError, fs)
            | Some fs' \<Rightarrow> (Inr (), fs')))"

text \<open>
  Modelled from the spec: \<^verbatim>\<open>read_binary(path)\<close> of \<^verbatim>\<open>knowledge_repo/utils/files.py\<close>,
  which is not among the sources. A read "returns the raw bytes of a reference" and
  fails when there is no such file.
\<close>

definition read_binary :: "node \<Rightarrow> path \<Rightarrow> error + bytes" where
  "read_binary fs p =
     (case lookup fs p of
        None \<Rightarrow> Inl FileNotFoundError
      | Some (Dir es) \<Rightarrow> Inl IsADirectoryError
      | Some (File b) \<Rightarrow> Inr b)"

text \<open>
  \<^verbatim>\<open>os.makedirs(name)\<close> with \<^verbatim>\<open>exist_ok=False\<close>: creates the directory and every
  missing directory above it. It raises when the name exists already and when a
  component above it is a plain file; in both cases nothing has been created.
\<close>

fun chain :: "path \<Rightarrow> node" where
  "chain [] = Dir []"
| "chain (c # cs) = Dir [(c, chain cs)]"

fun makedirs :: "node \<Rightarrow> path \<Rightarrow> error + node" where
  "makedirs n [] = Inl FileExistsError"
| "makedirs (File b) (c # cs) = Inl NotADirectoryError"
| "makedirs (Dir es) (c # cs) =
     (case map_of es c of
        None \<Rightarrow> Inr (Dir (AList.update c (chain cs) es))
      | Some n \<Rightarrow>
          (case makedirs n cs of
             Inl e \<Rightarrow> Inl e
           | Inr n' \<Rightarrow> Inr (Dir (AList.update c n' es))))"

text \<open>
  \<^verbatim>\<open>shutil.rmtree(path)\<close>: removes a directory with all it holds. On a plain file it
  raises \<^verbatim>\<open>NotADirectoryError\<close> and on a missing path \<^verbatim>\<open>FileNotFoundError\<close>; nothing is
  removed then.
\<close>

definition rmtree :: "node \<Rightarrow> path \<Rightarrow> (error + unit) \<times> node" where
  "rmtree fs p =
     (case lookup fs p of
        None \<Rightarrow> (Inl FileNotFoundError, fs)
      | Some (File b) \<Rightarrow> (Inl NotADirectoryError, fs)
      | Some (Dir es) \<Rightarrow> (Inr (), unlink fs p))"

text \<open>
  \<^verbatim>\<open>os.walk(top)\<close>: top-down, one triple (directory path, names of its directories,
  names of its files) for the top and for every directory below it. A top that is no
  directory gives nothing (\<^verbatim>\<open>os.walk\<close> ignores the error of listing it).
\<close>

fun walk_node :: "path \<Rightarrow> node \<Rightarrow> (path \<times> string list \<times> string list) list" where
  "walk_node dirpath (File b) = []"
| "walk_node dirpath (Dir es) =
     (dirpath,
      map fst (filter (\<lambda>e. case snd e of Dir ds \<Rightarrow> True | File b \<Rightarrow> False) es),
      map fst (filter (\<lambda>e. case snd e of Dir ds \<Rightarrow> False | File b \<Rightarrow> True) es))
     # concat (map (\<lambda>e. walk_node (dirpath @ [fst e]) (snd e)) es)"

definition walk :: "node \<Rightarrow> path \<Rightarrow> (path \<times> string list \<times> string list) list" where
  "walk fs start = (case lookup fs start of None \<Rightarrow> [] | Some n \<Rightarrow> walk_node start n)"

subsection \<open>Path arithmetic of \<^verbatim>\<open>os.path\<close>\<close>

text \<open>
  \<^verbatim>\<open>os.path.join(a, b)\<close> appends a relative \<open>b\<close> to \<open>a\<close>; when \<open>b\<close> is absolute it
  returns \<open>b\<close> and drops \<open>a\<close>. The code uses both: it joins \<^verbatim>\<open>self.path\<close> with a
  relative post path, and later joins \<^verbatim>\<open>self.path\<close> again with the result, which is
  absolute by then.
\<close>

definition join :: "path \<Rightarrow> path \<Rightarrow> path" where
  "join a b = a @ b"

definition join_abs :: "path \<Rightarrow> path \<Rightarrow> path" where
  "join_abs a b = b"

text \<open>
  \<^verbatim>\<open>os.path.dirname(os.path.join(path, reference))\<close>: the path without its last name.
  For the empty reference name the joined string is \<^verbatim>\<open>path + "/"\<close>, whose dirname is
  \<^verbatim>\<open>path\<close> itself.
\<close>

definition dirname_join :: "path \<Rightarrow> path \<Rightarrow> path" where
  "dirname_join path reference = (if reference = [] then path else butlast (join path reference))"

text \<open>
  \<^verbatim>\<open>os.path.relpath(p, start)\<close> of two absolute paths: one \<^verbatim>\<open>..\<close> for every component
  of \<open>start\<close> after the common prefix, then the rest of \<open>p\<close>; \<^verbatim>\<open>.\<close> when that is empty.
\<close>

definition relpath :: "path \<Rightarrow> path \<Rightarrow> path" where
  "relpath p start =
     (let i = length (longest_common_prefix start p);
          rel_list = replicate (length start - i) ''..'' @ drop i p
      in if rel_list = [] then [''.''] else rel_list)"

text \<open>The string of an absolute path, as \<^verbatim>\<open>os.walk\<close> hands it out in \<^verbatim>\<open>dirpath\<close>.\<close>

fun path_str :: "path \<Rightarrow> string" where
  "path_str [] = ''/''"
| "path_str (c # cs) = concat (map (\<lambda>x. CHR ''/'' # x) (c # cs))"

subsection \<open>Knowledge posts and the packed form\<close>

text \<open>
  Modelled from the spec: the class \<^verbatim>\<open>KnowledgePost\<close> of \<^verbatim>\<open>knowledge_repo/post.py\<close>,
  which is not among the sources. The spec describes it as the in-memory model of a
  post: its headers and its references, a mapping from reference name to binary content
  that includes the reserved names. \<^verbatim>\<open>_write_ref\<close> sets a reference, \<^verbatim>\<open>_read_ref\<close>
  returns its bytes and fails when it is absent, \<^verbatim>\<open>_has_ref\<close> probes it, \<^verbatim>\<open>_dir\<close> lists
  the names, those under \<open>parent\<close> when one is given.
\<close>

datatype KnowledgePost = KnowledgePost (headers: bytes) (references: "(path \<times> bytes) list")

definition post_write_ref :: "KnowledgePost \<Rightarrow> path \<Rightarrow> bytes \<Rightarrow> KnowledgePost" where
  "post_write_ref kp reference data =
     KnowledgePost (headers kp) (AList.update reference data (references kp))"

definition post_read_ref :: "KnowledgePost \<Rightarrow> path \<Rightarrow> error + bytes" where
  "post_read_ref kp reference =
     (case map_of (references kp) reference of None \<Rightarrow> Inl KeyError | Some data \<Rightarrow> Inr data)"

definition post_has_ref :: "KnowledgePost \<Rightarrow> path \<Rightarrow> bool" where
  "post_has_ref kp reference = (map_of (references kp) reference \<noteq> None)"

definition post_dir :: "KnowledgePost \<Rightarrow> path option \<Rightarrow> path list" where
  "post_dir kp parent =
     (case parent of
        None \<Rightarrow> map fst (references kp)
      | Some pre \<Rightarrow> filter (prefix pre) (map fst (references kp)))"

text \<open>
  Modelled from the spec: the packed archive format (\<^verbatim>\<open>format="kp"\<close>), whose converter
  is not among the sources. The spec fixes no byte layout, only the contract that the
  reader reconstructs from the written bytes the very post that was written. The layout
  is therefore a parameter: a writer \<open>pack\<close> and a reader \<open>unpack\<close>, which gives \<open>None\<close>
  on bytes that are no archive.
\<close>

record kp_format =
  pack :: "KnowledgePost \<Rightarrow> bytes"
  unpack :: "bytes \<Rightarrow> KnowledgePost option"

definition round_trip_exact :: "kp_format \<Rightarrow> bool" where
  "round_trip_exact F = (\<forall>kp. unpack F (pack F kp) = Some kp)"

text \<open>
  Modelled from the spec: \<^verbatim>\<open>KnowledgePost.from_file(path, format="kp")\<close> reads the
  archive at \<open>path\<close>; \<^verbatim>\<open>kp.to_file(path, format="kp")\<close> writes the post as an archive
  over the file at \<open>path\<close> (through a temporary file that is renamed, so the file
  changes in one step).
\<close>

definition from_file :: "kp_format \<Rightarrow> node \<Rightarrow> path \<Rightarrow> error + KnowledgePost" where
  "from_file F fs p =
     (case read_binary fs p of
        Inl e \<Rightarrow> Inl e
      | Inr b \<Rightarrow> (case unpack F b of None \<Rightarrow> Inl ValueError | Some kp \<Rightarrow> Inr kp))"

definition to_file :: "kp_format \<Rightarrow> node \<Rightarrow> KnowledgePost \<Rightarrow> path \<Rightarrow> (error + unit) \<times> node" where
  "to_file F fs kp p = write_binary fs p (pack F kp)"

subsection \<open>The folder backend: reference store\<close>

record folder_repo =
  repo_path :: path
  auto_create :: bool

text \<open>
  \<^verbatim>\<open>_kp_write_ref(self, path, reference, data, uuid=None, revision=None)\<close>; the last
  two arguments are not used by the body and are left out.
\<close>

definition kp_write_ref ::
  "kp_format \<Rightarrow> folder_repo \<Rightarrow> node \<Rightarrow> path \<Rightarrow> path \<Rightarrow> bytes
     \<Rightarrow> (error + unit) \<times> node" where
  "kp_write_ref F self fs path reference data =
     (let path = join (repo_path self) path in
      if isfile fs path then
        (case from_file F fs path of
           Inl e \<Rightarrow> (Inl e, fs)
         | Inr kp \<Rightarrow> to_file F fs (post_write_ref kp reference data) path)
      else
        (let ref_path = join path reference;
             ref_dir = dirname_join path reference
         in if \<not> exists fs ref_dir then
              (case makedirs fs ref_dir of
                 Inl e \<Rightarrow> (Inl e, fs)
               | Inr fs' \<Rightarrow> write_binary fs' ref_path data)
            else write_binary fs ref_path data))"

text \<open>\<^verbatim>\<open>_kp_read_ref(self, path, reference, revision=None)\<close>; \<open>revision\<close> is not used.\<close>

definition kp_read_ref ::
  "kp_format \<Rightarrow> folder_repo \<Rightarrow> node \<Rightarrow> path \<Rightarrow> path \<Rightarrow> error + bytes" where
  "kp_read_ref F self fs path reference =
     (let path = join (repo_path self) path in
      if isdir fs path then
        read_binary fs (join (join_abs (repo_path self) path) reference)
      else
        (case from_file F fs path of
           Inl e \<Rightarrow> Inl e
         | Inr kp \<Rightarrow> post_read_ref kp reference))"

text \<open>\<^verbatim>\<open>_kp_has_ref(self, path, reference, revision=None)\<close>.\<close>

definition kp_has_ref ::
  "kp_format \<Rightarrow> folder_repo \<Rightarrow> node \<Rightarrow> path \<Rightarrow> path \<Rightarrow> error + bool" where
  "kp_has_ref F self fs path reference =
     (let path = join (repo_path self) path in
      if isdir fs path then Inr (isfile fs (join path reference))
      else
        (case from_file F fs path of
           Inl e \<Rightarrow> Inl e
         | Inr kp \<Rightarrow> Inr (post_has_ref kp reference)))"

text \<open>
  \<^verbatim>\<open>_kp_dir(self, path, parent=None, revision=None)\<close>, a generator; the model returns
  the list of what it yields, in order. \<^verbatim>\<open>if parent:\<close> is false for \<^verbatim>\<open>None\<close> and for
  the empty string. The comparison \<^verbatim>\<open>dirpath == ""\<close> is kept as the source has it.
\<close>

definition truthy :: "path option \<Rightarrow> bool" where
  "truthy parent = (case parent of None \<Rightarrow> False | Some pre \<Rightarrow> pre \<noteq> [])"

definition kp_dir ::
  "kp_format \<Rightarrow> folder_repo \<Rightarrow> node \<Rightarrow> path \<Rightarrow> path option
     \<Rightarrow> error + path list" where
  "kp_dir F self fs path parent =
     (let path = join (repo_path self) path in
      if isdir fs path then
        (let path = (if truthy parent then join path (the parent) else path);
             start = join_abs (repo_path self) path
         in Inr (concat (map
              (\<lambda>(dirpath, dirnames, filenames).
                 map (\<lambda>filename. relpath (join dirpath [filename]) start)
                   (filter (\<lambda>filename. \<not> (path_str dirpath = '''' \<and> filename = ''REVISION''))
                      filenames))
              (walk fs start))))
      else
        (case from_file F fs path of
           Inl e \<Rightarrow> Inl e
         | Inr kp \<Rightarrow> Inr (post_dir kp parent)))"

subsection \<open>Integers as decimal text\<close>

text \<open>
  \<^verbatim>\<open>str(n)\<close> of a Python integer: its decimal digits, after a minus sign when it is
  negative.
\<close>

definition digit_char :: "nat \<Rightarrow> char" where
  "digit_char d = char_of (48 + d)"

fun digits :: "nat \<Rightarrow> string" where
  "digits n = (if n < 10 then [digit_char n] else digits (n div 10) @ [digit_char (n mod 10)])"

definition str_int :: "int \<Rightarrow> string" where
  "str_int n = (if n < 0 then CHR ''-'' # digits (nat (- n)) else digits (nat n))"

text \<open>
  Modelled from the spec: \<^verbatim>\<open>encode\<close> of \<^verbatim>\<open>knowledge_repo/utils/encoding.py\<close>, which is
  not among the sources. The spec has \<^verbatim>\<open>REVISION\<close> hold a decimal ASCII integer and
  \<^verbatim>\<open>UUID\<close> an opaque string: an integer is encoded as the bytes of its decimal text, a
  string (modelled by its bytes) as itself.
\<close>

definition encode_int :: "int \<Rightarrow> bytes" where
  "encode_int n = str_int n"

definition encode_str :: "string \<Rightarrow> bytes" where
  "encode_str s = s"

text \<open>
  \<^verbatim>\<open>int(b)\<close> of a bytes object, base 10: white space at both ends is dropped, one sign
  may lead, then come decimal digits, where single underscores may stand between two
  digits; anything else raises \<^verbatim>\<open>ValueError\<close>, here \<open>None\<close>. (CPython also refuses
  texts of more than 4300 digits; the model has no such limit.)
\<close>

definition is_space :: "char \<Rightarrow> bool" where
  "is_space c = (of_char c \<in> {9, 10, 11, 12, 13, 32 :: nat})"

definition is_digit :: "char \<Rightarrow> bool" where
  "is_digit c = (48 \<le> (of_char c :: nat) \<and> (of_char c :: nat) \<le> 57)"

definition digit_val :: "char \<Rightarrow> nat" where
  "digit_val c = of_char c - 48"

definition strip :: "string \<Rightarrow> string" where
  "strip s = rev (dropWhile is_space (rev (dropWhile is_space s)))"

fun digits_value :: "nat \<Rightarrow> bool \<Rightarrow> string \<Rightarrow> nat option" where
  "digits_value acc after_digit [] = (if after_digit then Some acc else None)"
| "digits_value acc after_digit (c # cs) =
     (if is_digit c then digits_value (10 * acc + digit_val c) True cs
      else if c = CHR ''_'' \<and> after_digit then digits_value acc False cs
      else None)"

definition py_int :: "bytes \<Rightarrow> int option" where
  "py_int b =
     (case strip b of
        [] \<Rightarrow> None
      | c # cs \<Rightarrow>
          if c = CHR ''-'' then map_option (\<lambda>n. - int n) (digits_value 0 False cs)
          else if c = CHR ''+'' then map_option int (digits_value 0 False cs)
          else map_option int (digits_value 0 False (c # cs)))"

subsection \<open>The folder backend: revision, UUID, status\<close>

text \<open>
  \<^verbatim>\<open>_kp_uuid\<close> and \<^verbatim>\<open>_kp_get_revision\<close> wrap the read in \<^verbatim>\<open>try ... except Exception\<close>:
  every error of \<^verbatim>\<open>_kp_read_ref\<close>, and for the revision also the \<^verbatim>\<open>ValueError\<close> of
  \<^verbatim>\<open>int\<close>, ends in the default value. The models are total functions for that reason.
\<close>

definition kp_uuid ::
  "kp_format \<Rightarrow> folder_repo \<Rightarrow> node \<Rightarrow> path \<Rightarrow> bytes option" where
  "kp_uuid F self fs path =
     (case kp_read_ref F self fs path [''UUID''] of
        Inl e \<Rightarrow> None
      | Inr b \<Rightarrow> Some b)"

definition kp_get_revision ::
  "kp_format \<Rightarrow> folder_repo \<Rightarrow> node \<Rightarrow> path \<Rightarrow> int" where
  "kp_get_revision F self fs path =
     (case kp_read_ref F self fs path [''REVISION''] of
        Inl e \<Rightarrow> 0
      | Inr b \<Rightarrow> (case py_int b of None \<Rightarrow> 0 | Some n \<Rightarrow> n))"

text \<open>
  \<^verbatim>\<open>_kp_new_revision(self, path, uuid=None)\<close>; \<^verbatim>\<open>if uuid:\<close> is false for \<^verbatim>\<open>None\<close> and
  for the empty string.
\<close>

definition kp_new_revision ::
  "kp_format \<Rightarrow> folder_repo \<Rightarrow> node \<Rightarrow> path \<Rightarrow> string option
     \<Rightarrow> (error + unit) \<times> node" where
  "kp_new_revision F self fs path uuid =
     (case kp_write_ref F self fs path [''REVISION'']
             (encode_int (kp_get_revision F self fs path + 1)) of
        (Inl e, fs') \<Rightarrow> (Inl e, fs')
      | (Inr u, fs') \<Rightarrow>
          (case uuid of
             None \<Rightarrow> (Inr (), fs')
           | Some s \<Rightarrow>
               if s \<noteq> [] then kp_write_ref F self fs' path [''UUID''] (encode_str s)
               else (Inr (), fs')))"

text \<open>A sequence of \<^verbatim>\<open>_kp_new_revision\<close> calls on one post; it stops at the first error.\<close>

fun new_revisions ::
  "kp_format \<Rightarrow> folder_repo \<Rightarrow> node \<Rightarrow> path \<Rightarrow> string option list
     \<Rightarrow> (error + unit) \<times> node" where
  "new_revisions F self fs path [] = (Inr (), fs)"
| "new_revisions F self fs path (uuid # uuids) =
     (case kp_new_revision F self fs path uuid of
        (Inl e, fs') \<Rightarrow> (Inl e, fs')
      | (Inr u, fs') \<Rightarrow> new_revisions F self fs' path uuids)"

datatype PostStatus = DRAFT | SUBMITTED | PUBLISHED | UNPUBLISHED

text \<open>\<^verbatim>\<open>_kp_status(self, path, revision=None, detailed=False, branch=None)\<close>.\<close>

definition kp_status ::
  "folder_repo \<Rightarrow> node \<Rightarrow> path \<Rightarrow> int option \<Rightarrow> bool \<Rightarrow> string option
     \<Rightarrow> PostStatus" where
  "kp_status self fs path revision detailed branch = PUBLISHED"

subsection \<open>The folder backend: lifecycle hooks\<close>

text \<open>
  \<^verbatim>\<open>_submit\<close>, \<^verbatim>\<open>_publish\<close> and \<^verbatim>\<open>_accept\<close> have the body \<^verbatim>\<open>pass\<close>; \<^verbatim>\<open>_unpublish\<close>
  raises \<^verbatim>\<open>NotImplementedError\<close>; \<^verbatim>\<open>_remove\<close> calls \<^verbatim>\<open>shutil.rmtree\<close> on the joined
  path and does not use its argument \<open>all\<close>.
\<close>

definition submit ::
  "folder_repo \<Rightarrow> node \<Rightarrow> path option \<Rightarrow> string option \<Rightarrow> bool
     \<Rightarrow> (error + unit) \<times> node" where
  "submit self fs path branch force = (Inr (), fs)"

definition publish :: "folder_repo \<Rightarrow> node \<Rightarrow> path \<Rightarrow> (error + unit) \<times> node" where
  "publish self fs path = (Inr (), fs)"

definition unpublish :: "folder_repo \<Rightarrow> node \<Rightarrow> path \<Rightarrow> (error + unit) \<times> node" where
  "unpublish self fs path = (Inl NotImplementedError, fs)"

definition accept :: "folder_repo \<Rightarrow> node \<Rightarrow> path \<Rightarrow> (error + unit) \<times> node" where
  "accept self fs path = (Inr (), fs)"

definition remove :: "folder_repo \<Rightarrow> node \<Rightarrow> path \<Rightarrow> (error + unit) \<times> node" where
  "remove self fs path = rmtree fs (join (repo_path self) path)"

subsection \<open>An archive layout, for concrete instances\<close>

text \<open>
  One layout that meets the round-trip contract, used where a concrete \<open>kp_format\<close> is
  needed: a string is written as its length in unary, a separator and its characters;
  a list as its length in unary, a separator and its elements.
\<close>

definition enc_str :: "string \<Rightarrow> string" where
  "enc_str s = replicate (length s) (CHR ''1'') @ CHR ''0'' # s"

definition dec_str :: "string \<Rightarrow> (string \<times> string) option" where
  "dec_str b =
     (let n = length (takeWhile (\<lambda>c. c = CHR ''1'') b)
      in case drop n b of
           [] \<Rightarrow> None
         | z # body \<Rightarrow> if length body < n then None else Some (take n body, drop n body))"

fun dec_many :: "nat \<Rightarrow> (string \<Rightarrow> ('a \<times> string) option) \<Rightarrow> string \<Rightarrow> ('a list \<times> string) option" where
  "dec_many 0 d b = Some ([], b)"
| "dec_many (Suc n) d b =
     (case d b of
        None \<Rightarrow> None
      | Some (x, b') \<Rightarrow>
          (case dec_many n d b' of
             None \<Rightarrow> None
           | Some (xs, b'') \<Rightarrow> Some (x # xs, b'')))"

definition enc_list :: "('a \<Rightarrow> string) \<Rightarrow> 'a list \<Rightarrow> string" where
  "enc_list e xs = replicate (length xs) (CHR ''1'') @ CHR ''0'' # concat (map e xs)"

definition dec_list :: "(string \<Rightarrow> ('a \<times> string) option) \<Rightarrow> string \<Rightarrow> ('a list \<times> string) option" where
  "dec_list d b =
     (let n = length (takeWhile (\<lambda>c. c = CHR ''1'') b)
      in case drop n b of [] \<Rightarrow> None | z # body \<Rightarrow> dec_many n d body)"

definition enc_ref :: "path \<times> bytes \<Rightarrow> string" where
  "enc_ref r = enc_list enc_str (fst r) @ enc_str (snd r)"

definition dec_ref :: "string \<Rightarrow> ((path \<times> bytes) \<times> string) option" where
  "dec_ref b =
     (case dec_list dec_str b of
        None \<Rightarrow> None
      | Some (name, b') \<Rightarrow>
          (case dec_str b' of
             None \<Rightarrow> None
           | Some (data, b'') \<Rightarrow> Some ((name, data), b'')))"

definition example_pack :: "KnowledgePost \<Rightarrow> bytes" where
  "example_pack kp = enc_str (headers kp) @ enc_list enc_ref (references kp)"

definition example_unpack :: "bytes \<Rightarrow> KnowledgePost option" where
  "example_unpack b =
     (case dec_str b of
        None \<Rightarrow> None
      | Some (h, b') \<Rightarrow>
          (case dec_list dec_ref b' of
             None \<Rightarrow> None
           | Some (refs, rest) \<Rightarrow> if rest = [] then Some (KnowledgePost h refs) else None))"

definition example_format :: kp_format where
  "example_format = \<lparr>pack = example_pack, unpack = example_unpack\<rparr>"

subsection \<open>Hook-aware commits (\<^verbatim>\<open>utils/git.py\<close>)\<close>

text \<open>
  The index wrapper works on a git repository through GitPython and the operating
  system. The model keeps what the commit path reads and writes: whether a path is
  executable (\<^verbatim>\<open>os.access(hp, os.X_OK)\<close>), what running a command line does
  (\<^verbatim>\<open>Popen\<close> with \<^verbatim>\<open>handle_process_output\<close>: it is not launched, or it exits with a
  return code and its output, and may have rewritten the commit message file), the
  platform, the commit message file, the staged tree, the trees and commits of the
  object database, and the commit that \<^verbatim>\<open>HEAD\<close> points to.
\<close>

type_synonym tree = "(string \<times> bytes) list"

datatype commit =
  Commit (commit_tree: tree) (commit_message: string) (commit_parents: "commit list")
    (commit_meta: string)

datatype process = NotLaunched string | Exited int string string

datatype hook_status = Exception string | ReturnCode int

text \<open>
  \<^verbatim>\<open>HookExecutionError(command, status, stderr=None, stdout=None)\<close>; \<open>OSError\<close> stands
  for the error of reading a commit message file that is not there.
\<close>

datatype git_error =
    HookExecutionError string hook_status "string option" "string option"
  | OSError

record git_index =
  git_dir :: string
  working_dir :: string
  x_ok :: "string \<Rightarrow> bool"
  popen :: "string list \<Rightarrow> string option \<Rightarrow> process \<times> string option"
  is_win :: bool
  has_file_extension :: "string \<Rightarrow> bool"
  relative_to :: "string \<Rightarrow> string \<Rightarrow> string option"
  bash_path :: string
  commit_editmsg :: "string option"
  staged :: tree
  trees :: "tree list"
  commits :: "commit list"
  head_commit :: "commit option"

text \<open>GitPython's \<^verbatim>\<open>hook_path(name, git_dir)\<close> is \<^verbatim>\<open>osp.join(git_dir, "hooks", name)\<close>.\<close>

definition hook_path :: "string \<Rightarrow> string \<Rightarrow> string" where
  "hook_path name dir = dir @ ''/hooks/'' @ name"

text \<open>
  \<^verbatim>\<open>run_commit_hook(name, index, *args)\<close>. The \<^verbatim>\<open>try\<close> block holds the computation of
  the command, \<open>hook_cmd\<close> here (on Windows \<^verbatim>\<open>relative_to\<close> raises \<^verbatim>\<open>ValueError\<close> for a
  hook outside the working directory), and the launch; any exception there is wrapped
  in a \<^verbatim>\<open>HookExecutionError\<close>.
\<close>

definition hook_cmd :: "git_index \<Rightarrow> string \<Rightarrow> string + string list" where
  "hook_cmd index hp =
     (if is_win index \<and> \<not> has_file_extension index hp
      then (case relative_to index hp (working_dir index) of
              None \<Rightarrow> Inl ''ValueError''
            | Some relative_hp \<Rightarrow> Inr [bash_path index, relative_hp])
      else Inr [hp])"

definition run_commit_hook ::
  "string \<Rightarrow> git_index \<Rightarrow> string list \<Rightarrow> (git_error + unit) \<times> git_index" where
  "run_commit_hook name index args =
     (let hp = hook_path name (git_dir index) in
      if \<not> x_ok index hp then (Inr (), index)
      else
        (case hook_cmd index hp of
           Inl ex \<Rightarrow> (Inl (HookExecutionError hp (Exception ex) None None), index)
         | Inr cmd \<Rightarrow>
             (case popen index (cmd @ args) (commit_editmsg index) of
                (NotLaunched ex, msg) \<Rightarrow>
                  (Inl (HookExecutionError hp (Exception ex) None None), index)
              | (Exited returncode out err, msg) \<Rightarrow>
                  if returncode \<noteq> 0
                  then (Inl (HookExecutionError hp (ReturnCode returncode) (Some err) (Some out)),
                        index\<lparr>commit_editmsg := msg\<rparr>)
                  else (Inr (), index\<lparr>commit_editmsg := msg\<rparr>))))"

text \<open>
  GitPython's \<^verbatim>\<open>write_tree\<close> stores the staged tree in the object database and
  returns it; \<^verbatim>\<open>Commit.create_from_tree\<close> creates the commit object, with the given
  parents or else the commit of \<^verbatim>\<open>HEAD\<close>, and moves \<^verbatim>\<open>HEAD\<close> to it when \<open>head\<close> is set.
\<close>

definition write_tree :: "git_index \<Rightarrow> tree \<times> git_index" where
  "write_tree index = (staged index, index\<lparr>trees := staged index # trees index\<rparr>)"

definition create_from_tree ::
  "git_index \<Rightarrow> tree \<Rightarrow> string \<Rightarrow> commit list option \<Rightarrow> bool \<Rightarrow> string
     \<Rightarrow> commit \<times> git_index" where
  "create_from_tree index t message parent_commits head meta =
     (let ps = (case parent_commits of
                  Some cs \<Rightarrow> cs
                | None \<Rightarrow> (case head_commit index of None \<Rightarrow> [] | Some c \<Rightarrow> [c]));
          rval = Commit t message ps meta;
          index1 = index\<lparr>commits := rval # commits index\<rparr>
      in (rval, if head then index1\<lparr>head_commit := Some rval\<rparr> else index1))"

definition commit_editmsg_filepath :: "git_index \<Rightarrow> string" where
  "commit_editmsg_filepath index = git_dir index @ ''/COMMIT_EDITMSG''"

text \<open>
  \<^verbatim>\<open>IndexFileWrapper.commit\<close>; author, committer and the two dates are passed on to
  \<^verbatim>\<open>Commit.create_from_tree\<close> unchanged and are one argument \<open>meta\<close> here.
\<close>

definition commit_tail ::
  "git_index \<Rightarrow> string \<Rightarrow> commit list option \<Rightarrow> bool \<Rightarrow> string \<Rightarrow> bool
     \<Rightarrow> (git_error + commit) \<times> git_index" where
  "commit_tail index message parent_commits head meta skip_hooks =
     (case write_tree index of
        (t, index1) \<Rightarrow>
          (case create_from_tree index1 t message parent_commits head meta of
             (rval, index2) \<Rightarrow>
               if \<not> skip_hooks then
                 (case run_commit_hook ''post-commit'' index2 [] of
                    (Inl e, index3) \<Rightarrow> (Inl e, index3)
                  | (Inr u, index3) \<Rightarrow> (Inr rval, index3))
               else (Inr rval, index2)))"

definition commit ::
  "git_index \<Rightarrow> string \<Rightarrow> commit list option \<Rightarrow> bool \<Rightarrow> string \<Rightarrow> bool
     \<Rightarrow> (git_error + commit) \<times> git_index" where
  "commit index message parent_commits head meta skip_hooks =
     (if \<not> skip_hooks then
        (case run_commit_hook ''pre-commit'' index [] of
           (Inl e, index1) \<Rightarrow> (Inl e, index1)
         | (Inr u, index1) \<Rightarrow>
             (let index2 = index1\<lparr>commit_editmsg := Some message\<rparr> in
              case run_commit_hook ''commit-msg'' index2 [commit_editmsg_filepath index2] of
                (Inl e, index3) \<Rightarrow> (Inl e, index3)
              | (Inr u, index3) \<Rightarrow>
                  (case commit_editmsg index3 of
                     None \<Rightarrow> (Inl OSError, index3)
                   | Some message' \<Rightarrow>
                       commit_tail (index3\<lparr>commit_editmsg := None\<rparr>) message' parent_commits
                         head meta skip_hooks)))
      else commit_tail index message parent_commits head meta skip_hooks)"

subsection \<open>Resolving a URI (\<^verbatim>\<open>from_uri\<close>)\<close>

text \<open>
  \<^verbatim>\<open>from_uri\<close> works on the URI string itself. \<^verbatim>\<open>uri_to_path\<close> composes
  \<^verbatim>\<open>urlparse\<close>, \<^verbatim>\<open>url2pathname\<close>, \<^verbatim>\<open>os.path.join\<close> and \<^verbatim>\<open>abspath\<close> of the standard library,
  which are parameters here, as is \<^verbatim>\<open>os.path.exists\<close> on path strings. \<^verbatim>\<open>os.path.join\<close>
  of two strings is the POSIX one.
\<close>

record stdlib =
  urlparse_netloc :: "string \<Rightarrow> string"
  urlparse_path :: "string \<Rightarrow> string"
  url2pathname :: "string \<Rightarrow> string"
  abspath :: "string \<Rightarrow> string"
  path_exists :: "string \<Rightarrow> bool"

definition ospjoin :: "string \<Rightarrow> string \<Rightarrow> string" where
  "ospjoin a b =
     (if b \<noteq> [] \<and> hd b = CHR ''/'' then b
      else if a = [] \<or> last a = CHR ''/'' then a @ b
      else a @ ''/'' @ b)"

definition uri_to_path :: "stdlib \<Rightarrow> string \<Rightarrow> string" where
  "uri_to_path L uri =
     abspath L (ospjoin (''//'' @ urlparse_netloc L uri @ ''/'')
                  (url2pathname L (urlparse_path L uri)))"

definition startswith :: "string \<Rightarrow> string \<Rightarrow> bool" where
  "startswith s pre = prefix pre s"

datatype repository = GitKnowledgeRepository string | FolderKnowledgeRepository string

definition from_uri :: "stdlib \<Rightarrow> string \<Rightarrow> repository" where
  "from_uri L uri =
     (let check_for_git = \<not> startswith uri ''file://'';
          uri = (if startswith uri ''file://'' then uri_to_path L uri else uri)
      in if check_for_git \<and> path_exists L (ospjoin uri ''.git'')
         then GitKnowledgeRepository uri
         else FolderKnowledgeRepository uri)"

subsection \<open>A small repository, for concrete instances\<close>

definition example_repo :: folder_repo where
  "example_repo = \<lparr>repo_path = [''repo''], auto_create = False\<rparr>"

definition example_fs :: node where
  "example_fs =
     Dir [(''repo'', Dir [(''packed.kp'', File (pack example_format (KnowledgePost [] [])))])]"

text \<open>What a call returns, \<open>None\<close> when it raises.\<close>

definition result :: "error + 'a \<Rightarrow> 'a option" where
  "result r = (case r of Inl e \<Rightarrow> None | Inr v \<Rightarrow> Some v)"

text \<open>The same repository after one and after two revisions of the post \<^verbatim>\<open>post\<close>.\<close>

definition example_fs1 :: node where
  "example_fs1 =
     Dir [(''repo'', Dir [(''packed.kp'', File (pack example_format (KnowledgePost [] []))),
                         (''post'', Dir [(''REVISION'', File ''1''), (''UUID'', File ''u-1'')])])]"

definition example_fs2 :: node where
  "example_fs2 =
     Dir [(''repo'', Dir [(''packed.kp'', File (pack example_format (KnowledgePost [] []))),
                         (''post'', Dir [(''REVISION'', File ''2''), (''UUID'', File ''u-1'')])])]"

text \<open>A post whose \<^verbatim>\<open>REVISION\<close> file holds no integer.\<close>

definition example_fs_bad :: node where
  "example_fs_bad = Dir [(''repo'', Dir [(''post'', Dir [(''REVISION'', File ''v2'')])])]"

text \<open>A repository whose only post is packed and holds one reference.\<close>

definition packed_fs :: node where
  "packed_fs = Dir [(''repo'', Dir [(''packed.kp'',
      File (pack example_format (KnowledgePost [] [([''knowledge.md''], ''text'')])))])]"

text \<open>
  Directories of a real file system hold every name once; \<open>wf\<close> says so for the tree.
\<close>

fun wf :: "node \<Rightarrow> bool" where
  "wf (File b) = True"
| "wf (Dir es) = (distinct (map fst es) \<and> list_all (\<lambda>e. wf (snd e)) es)"

text \<open>The paths of the files that a walk from \<open>dirpath\<close> comes across.\<close>

definition yielded :: "path \<Rightarrow> node \<Rightarrow> path list" where
  "yielded dirpath n =
     concat (map (\<lambda>(dp, dns, fns). map (\<lambda>f. dp @ [f]) fns) (walk_node dirpath n))"

text \<open>A standard library view of a machine where \<^verbatim>\<open>/srv/kr\<close> is a git checkout.\<close>

definition example_stdlib :: stdlib where
  "example_stdlib =
     \<lparr>urlparse_netloc = (\<lambda>uri. ''''),
      urlparse_path = drop 7,
      url2pathname = (\<lambda>p. p),
      abspath = (\<lambda>p. ''/srv/kr''),
      path_exists = (\<lambda>p. p = ''/srv/kr/.git'')\<rparr>"

text \<open>
  A repository on a POSIX machine where every hook that runs prints a line, complains
  and exits with 1; its \<^verbatim>\<open>pre-commit\<close> hook is executable. In the second one the
  \<^verbatim>\<open>post-commit\<close> hook is the executable one.
\<close>

definition example_index :: git_index where
  "example_index =
     \<lparr>git_dir = ''/srv/kr/.git'', working_dir = ''/srv/kr'',
      x_ok = (\<lambda>p. p = ''/srv/kr/.git/hooks/pre-commit''),
      popen = (\<lambda>cmd msg. (Exited 1 ''checking'' ''lint failed'', msg)),
      is_win = False, has_file_extension = (\<lambda>p. False), relative_to = (\<lambda>p d. None),
      bash_path = ''bash'', commit_editmsg = None, staged = [(''a.md'', ''text'')],
      trees = [], commits = [], head_commit = None\<rparr>"

definition example_post_index :: git_index where
  "example_post_index = example_index\<lparr>x_ok := (\<lambda>p. p = ''/srv/kr/.git/hooks/post-commit'')\<rparr>"

definition example_commit :: commit where
  "example_commit = Commit [(''a.md'', ''text'')] ''first'' [] ''meta''"

section \<open>Properties\<close>

subsection \<open>File system lemmas\<close>


lemma map_of_update: "map_of (AList.update k v al) k' = (if k' = k then Some v else map_of al k')"
  by (simp add: update_conv')

lemma isdir_simps [simp]:
  "isdir (Dir es) [] = True"
  "isdir (File b) q = False"
  "isdir (Dir es) (c # cs) = (case map_of es c of None \<Rightarrow> False | Some n \<Rightarrow> isdir n cs)"
  by (cases q; simp add: isdir_def split: option.splits)+

lemma lookup_put_same: "put fs p n = Some fs' \<Longrightarrow> lookup fs' p = Some n"
  by (induction fs p n arbitrary: fs' rule: put.induct)
     (auto simp: map_of_update split: option.splits)

lemma put_isdir_prefix: "put fs (q @ c # cs) n = Some fs' \<Longrightarrow> isdir fs' q"
proof (induction q arbitrary: fs fs')
  case Nil
  then show ?case
    by (cases fs; cases cs) (auto split: option.splits)
next
  case (Cons a q)
  then show ?case
    by (cases fs; cases "q @ c # cs") (auto simp: map_of_update split: option.splits)
qed

lemma lookup_put_other:
  "put fs p n = Some fs' \<Longrightarrow> \<not> prefix q p \<Longrightarrow> \<not> prefix p q \<Longrightarrow> lookup fs' q = lookup fs q"
proof (induction fs p n arbitrary: fs' q rule: put.induct)
  case (1 n new)
  then show ?case by simp
next
  case (2 b c cs new)
  then show ?case by simp
next
  case (3 es c new)
  then show ?case by (cases q) (auto simp: map_of_update)
next
  case (4 es c c' cs new)
  then show ?case
    by (cases q) (auto simp: map_of_update split: option.splits)
qed

lemma lookup_chain: "lookup (chain cs) q = (if prefix q cs then Some (chain (drop (length q) cs)) else None)"
  by (induction cs arbitrary: q) (case_tac q; auto)+

lemma isdir_chain: "isdir (chain cs) cs"
  by (induction cs) auto

lemma makedirs_isdir: "makedirs fs p = Inr fs' \<Longrightarrow> isdir fs' p"
  apply (induction fs p arbitrary: fs' rule: makedirs.induct)
  apply (auto simp: map_of_update isdir_chain split: option.splits sum.splits)
  done

lemma makedirs_fresh: "makedirs fs p = Inr fs' \<Longrightarrow> lookup fs p = None"
  by (induction fs p arbitrary: fs' rule: makedirs.induct)
     (auto split: option.splits sum.splits)

lemma lookup_makedirs_other:
  "makedirs fs p = Inr fs' \<Longrightarrow> \<not> prefix q p \<Longrightarrow> lookup fs' q = lookup fs q"
proof (induction fs p arbitrary: fs' q rule: makedirs.induct)
  case (1 n)
  then show ?case by simp
next
  case (2 b c cs)
  then show ?case by simp
next
  case (3 es c cs)
  then show ?case
    by (cases q) (auto simp: map_of_update lookup_chain split: option.splits sum.splits)
qed

text \<open>What a successful \<open>write_binary\<close> leaves behind.\<close>

lemma write_binary_ok:
  assumes "write_binary fs p data = (Inr (), fs')"
  shows "put fs p (File data) = Some fs'" and "\<not> isdir fs p" and "isdir fs (butlast p)"
  using assms by (auto simp: write_binary_def split: if_splits option.splits)

lemma write_binary_nonempty: "write_binary fs p data = (Inr (), fs') \<Longrightarrow> p \<noteq> []"
  by (auto simp: write_binary_def split: if_splits option.splits)

lemma isdir_not_isfile: "isdir fs p \<Longrightarrow> \<not> isfile fs p"
  by (auto simp: isdir_def isfile_def split: option.splits node.splits)

lemma write_expanded_ok:
  assumes w: "kp_write_ref F self fs path reference data = (Inr (), fs')"
    and nf: "\<not> isfile fs (join (repo_path self) path)"
  shows "reference \<noteq> []"
    and "\<exists>fsx. put fsx (join (repo_path self) path @ reference) (File data) = Some fs'
          \<and> (fsx = fs \<and> exists fs (dirname_join (join (repo_path self) path) reference)
              \<or> makedirs fs (dirname_join (join (repo_path self) path) reference) = Inr fsx
                \<and> \<not> exists fs (dirname_join (join (repo_path self) path) reference))"
proof -
  let ?p = "join (repo_path self) path"
  show "reference \<noteq> []"
  proof
    assume e: "reference = []"
    show False
    proof (cases "exists fs ?p")
      case True
      with nf have "isdir fs ?p"
        by (auto simp: exists_def isdir_def isfile_def split: option.splits node.splits)
      with w nf e True show False
        by (auto simp: kp_write_ref_def Let_def dirname_join_def join_def write_binary_def)
    next
      case False
      with w nf e show False
        by (auto simp: kp_write_ref_def Let_def dirname_join_def join_def write_binary_def
              dest: makedirs_isdir split: sum.splits if_splits)
    qed
  qed
  from w nf show "\<exists>fsx. put fsx (?p @ reference) (File data) = Some fs'
          \<and> (fsx = fs \<and> exists fs (dirname_join ?p reference)
              \<or> makedirs fs (dirname_join ?p reference) = Inr fsx
                \<and> \<not> exists fs (dirname_join ?p reference))"
    by (auto simp: kp_write_ref_def Let_def join_def dest: write_binary_ok(1)
          split: sum.splits if_splits)
qed

lemma post_read_write: "post_read_ref (post_write_ref kp r d) r = Inr d"
  by (simp add: post_read_ref_def post_write_ref_def map_of_update)

subsection \<open>Round trip of a reference\<close>

lemma write_then_read:
  assumes rt: "round_trip_exact F"
    and w: "kp_write_ref F self fs path reference data = (Inr (), fs')"
  shows "kp_read_ref F self fs' path reference = Inr data"
proof (cases "isfile fs (join (repo_path self) path)")
  case True
  let ?p = "join (repo_path self) path"
  from w True obtain kp where kp: "from_file F fs ?p = Inr kp"
    and wb: "write_binary fs ?p (pack F (post_write_ref kp reference data)) = (Inr (), fs')"
    by (auto simp: kp_write_ref_def Let_def to_file_def split: sum.splits)
  from wb have l: "lookup fs' ?p = Some (File (pack F (post_write_ref kp reference data)))"
    by (auto dest: write_binary_ok(1) lookup_put_same)
  then have nd: "\<not> isdir fs' ?p" by (simp add: isdir_def)
  from l rt have "from_file F fs' ?p = Inr (post_write_ref kp reference data)"
    by (simp add: from_file_def read_binary_def round_trip_exact_def)
  with nd show ?thesis
    by (simp add: kp_read_ref_def Let_def post_read_write)
next
  case False
  let ?p = "join (repo_path self) path"
  from write_expanded_ok[OF w False] obtain fsx where ne: "reference \<noteq> []"
    and p: "put fsx (?p @ reference) (File data) = Some fs'" by blast
  from ne obtain c cs where "reference = c # cs" by (cases reference) auto
  with p have "isdir fs' ?p" by (auto dest: put_isdir_prefix)
  moreover from p have "lookup fs' (?p @ reference) = Some (File data)"
    by (rule lookup_put_same)
  ultimately show ?thesis
    by (simp add: kp_read_ref_def Let_def join_abs_def join_def read_binary_def)
qed


lemma takeWhile_ones: "takeWhile (\<lambda>c. c = CHR ''1'') (replicate n (CHR ''1'') @ CHR ''0'' # r) = replicate n (CHR ''1'')"
  by (induction n) auto

lemma dec_enc_str: "dec_str (enc_str s @ r) = Some (s, r)"
  by (simp add: dec_str_def enc_str_def takeWhile_ones Let_def)

lemma dec_many_concat:
  assumes "\<And>x r. d (e x @ r) = Some (x, r)"
  shows "dec_many (length xs) d (concat (map e xs) @ r) = Some (xs, r)"
  using assms by (induction xs) auto

lemma dec_enc_list:
  assumes "\<And>x r. d (e x @ r) = Some (x, r)"
  shows "dec_list d (enc_list e xs @ r) = Some (xs, r)"
  using dec_many_concat[of d e xs r] assms
  by (simp add: dec_list_def enc_list_def takeWhile_ones Let_def)

lemma dec_enc_ref: "dec_ref (enc_ref x @ r) = Some (x, r)"
  by (simp add: dec_ref_def enc_ref_def dec_enc_list[of dec_str enc_str] dec_enc_str)

lemma example_round_trip: "round_trip_exact example_format"
  using dec_enc_list[of dec_ref enc_ref _ "[]"]
  by (simp add: round_trip_exact_def example_format_def example_unpack_def example_pack_def
        dec_enc_str dec_enc_ref)

lemma unpack_pack_example: "unpack example_format (pack example_format kp) = Some kp"
  using example_round_trip by (simp add: round_trip_exact_def)

lemma isfile_simps [simp]:
  "isfile (File b) [] = True"
  "isfile (Dir es) [] = False"
  "isfile (File b) (c # cs) = False"
  "isfile (Dir es) (c # cs) = (case map_of es c of None \<Rightarrow> False | Some n \<Rightarrow> isfile n cs)"
  by (simp_all add: isfile_def split: option.splits)

lemma exists_simps [simp]:
  "exists n [] = True"
  "exists (File b) (c # cs) = False"
  "exists (Dir es) (c # cs) = (case map_of es c of None \<Rightarrow> False | Some n \<Rightarrow> exists n cs)"
  by (simp_all add: exists_def split: option.splits)

text \<open>
  Claim C1. Whenever \<^verbatim>\<open>_kp_write_ref\<close> succeeds, \<^verbatim>\<open>_kp_read_ref\<close> on the same post path
  and reference name returns exactly the bytes that were written. The statement is one
  for both physical forms: the file system \<open>fs\<close> is arbitrary, so the post may be a
  directory, a packed file, or not there yet (it is then created as a directory). For
  the packed form the archive format has to be round-trip exact, which is the contract
  the spec gives for it.
\<close>

theorem kp_write_then_read:
  assumes "round_trip_exact F"
    and "kp_write_ref F self fs path reference data = (Inr (), fs')"
  shows "kp_read_ref F self fs' path reference = Inr data"
  using assms by (rule write_then_read)

text \<open>
  The hypotheses at work: a write into a post that does not exist yet (expanded form,
  with a directory of the reference created on the way) and a write into a packed post.
\<close>

theorem kp_write_then_read_witness:
  "round_trip_exact example_format
   \<and> kp_write_ref example_format example_repo example_fs [''post''] [''images'', ''a.png''] ''abc''
       = (Inr (), Dir [(''repo'', Dir [(''packed.kp'', File (pack example_format (KnowledgePost [] []))),
                                       (''post'', Dir [(''images'', Dir [(''a.png'', File ''abc'')])])])])
   \<and> kp_read_ref example_format example_repo
        (Dir [(''repo'', Dir [(''packed.kp'', File (pack example_format (KnowledgePost [] []))),
                                       (''post'', Dir [(''images'', Dir [(''a.png'', File ''abc'')])])])])
        [''post''] [''images'', ''a.png''] = Inr ''abc''
   \<and> kp_write_ref example_format example_repo example_fs [''packed.kp''] [''knowledge.md''] ''text''
       = (Inr (), Dir [(''repo'', Dir [(''packed.kp'',
            File (pack example_format (KnowledgePost [] [([''knowledge.md''], ''text'')])))])])
   \<and> kp_read_ref example_format example_repo
        (Dir [(''repo'', Dir [(''packed.kp'',
            File (pack example_format (KnowledgePost [] [([''knowledge.md''], ''text'')])))])])
        [''packed.kp''] [''knowledge.md''] = Inr ''text''"
proof -
  have w1: "kp_write_ref example_format example_repo example_fs [''post''] [''images'', ''a.png''] ''abc''
       = (Inr (), Dir [(''repo'', Dir [(''packed.kp'', File (pack example_format (KnowledgePost [] []))),
                                       (''post'', Dir [(''images'', Dir [(''a.png'', File ''abc'')])])])])"
    by (simp add: kp_write_ref_def example_repo_def example_fs_def join_def dirname_join_def write_binary_def Let_def)
  have w2: "kp_write_ref example_format example_repo example_fs [''packed.kp''] [''knowledge.md''] ''text''
       = (Inr (), Dir [(''repo'', Dir [(''packed.kp'',
            File (pack example_format (KnowledgePost [] [([''knowledge.md''], ''text'')])))])])"
    by (simp add: kp_write_ref_def example_repo_def example_fs_def join_def from_file_def read_binary_def
          unpack_pack_example to_file_def post_write_ref_def write_binary_def Let_def)
  show ?thesis
    using example_round_trip w1 w2
      kp_write_then_read[OF example_round_trip w1] kp_write_then_read[OF example_round_trip w2]
    by simp
qed


subsection \<open>Status\<close>

text \<open>
  Claim C3. The status query of the folder backend returns \<open>PUBLISHED\<close> for every post
  path, every revision argument and every state of the file system; in particular in
  the state that a revision bump of an \<^verbatim>\<open>add\<close> leaves behind.
\<close>

theorem kp_status_published:
  "kp_status self fs path revision detailed branch = PUBLISHED
   \<and> kp_status self (snd (kp_new_revision F self fs path uuid)) path revision detailed branch
       = PUBLISHED"
  by (simp add: kp_status_def)

subsection \<open>Decimal text of integers\<close>

declare digits.simps [simp del]

lemma is_digit_digit_char: "d < 10 \<Longrightarrow> is_digit (digit_char d)"
  by (simp add: is_digit_def digit_char_def)

lemma digit_val_digit_char: "d < 10 \<Longrightarrow> digit_val (digit_char d) = d"
  by (simp add: digit_val_def digit_char_def)

lemma is_digit_other:
  "is_digit c \<Longrightarrow> \<not> is_space c \<and> c \<noteq> CHR ''-'' \<and> c \<noteq> CHR ''+'' \<and> c \<noteq> CHR ''_''"
  by (auto simp: is_digit_def is_space_def)

lemma digits_all: "c \<in> set (digits n) \<Longrightarrow> is_digit c"
  by (induction n arbitrary: c rule: digits.induct)
     (subst (asm) digits.simps, auto simp: is_digit_digit_char split: if_splits)

lemma digits_ne: "digits n \<noteq> []"
  by (subst digits.simps) simp

lemma digits_value_append:
  "\<forall>c\<in>set ds. is_digit c \<Longrightarrow>
     digits_value acc p (ds @ r) =
       (if ds = [] then digits_value acc p r
        else digits_value (foldl (\<lambda>a c. 10 * a + digit_val c) acc ds) True r)"
  by (induction ds arbitrary: acc p) auto

lemma foldl_digits: "foldl (\<lambda>a c. 10 * a + digit_val c) 0 (digits n) = n"
proof (induction n rule: digits.induct)
  case (1 n)
  show ?case
  proof (cases "n < 10")
    case True
    then show ?thesis by (subst digits.simps) (simp add: digit_val_digit_char)
  next
    case False
    with 1 show ?thesis by (subst digits.simps) (simp add: digit_val_digit_char)
  qed
qed

lemma digits_value_digits: "digits_value 0 False (digits n) = Some n"
  using digits_value_append[of "digits n" 0 False "[]"]
  by (simp add: digits_all digits_ne foldl_digits)

lemma strip_id: "s \<noteq> [] \<Longrightarrow> \<not> is_space (hd s) \<Longrightarrow> \<not> is_space (last s) \<Longrightarrow> strip s = s"
proof -
  assume a: "s \<noteq> []" "\<not> is_space (hd s)" "\<not> is_space (last s)"
  then have "dropWhile is_space s = s" by (cases s) auto
  moreover from a have "dropWhile is_space (rev s) = rev s"
    by (cases "rev s") (auto simp: last_rev hd_rev)
  ultimately show ?thesis by (simp add: strip_def)
qed

lemma py_int_str_int: "py_int (str_int n) = Some n"
proof (cases "n < 0")
  case True
  let ?ds = "digits (nat (- n))"
  have "is_digit (last ?ds)" by (rule digits_all[OF last_in_set]) (rule digits_ne)
  then have "\<not> is_space (last (CHR ''-'' # ?ds))"
    using digits_ne is_digit_other by auto
  then have "strip (CHR ''-'' # ?ds) = CHR ''-'' # ?ds"
    by (intro strip_id) (auto simp: is_space_def)
  with True show ?thesis
    by (simp add: py_int_def str_int_def digits_value_digits)
next
  case False
  let ?ds = "digits (nat n)"
  obtain c cs where cs: "?ds = c # cs" using digits_ne by (cases ?ds) auto
  then have c: "is_digit c" using digits_all[of c "nat n"] by simp
  have "is_digit (last ?ds)" by (rule digits_all[OF last_in_set]) (rule digits_ne)
  with c cs have "strip ?ds = ?ds"
    using is_digit_other by (intro strip_id) auto
  with False cs c show ?thesis
    using digits_value_digits[of "nat n"] is_digit_other[of c]
    by (simp add: py_int_def str_int_def)
qed

subsection \<open>Writing one reference leaves the others alone\<close>

lemma put_isdir_before: "put fs (q @ c # cs) n = Some fs' \<Longrightarrow> isdir fs q"
proof (induction q arbitrary: fs fs')
  case Nil
  then show ?case by (cases fs) auto
next
  case (Cons a q)
  then show ?case
    by (cases fs; cases "q @ c # cs") (auto split: option.splits)
qed

lemma lookup_append_None: "lookup fs p = None \<Longrightarrow> lookup fs (p @ q) = None"
  by (induction fs p rule: lookup.induct) (auto split: option.splits)

lemma prefix_butlast: "prefix xs (butlast ys) \<Longrightarrow> prefix xs ys"
  using prefixeq_butlast[of ys] by (rule prefix_order.trans[rotated])

lemma read_other_ref:
  assumes rt: "round_trip_exact F"
    and w: "kp_write_ref F self fs path r d = (Inr (), fs')"
    and r1: "\<not> prefix r r'" and r2: "\<not> prefix r' r"
  shows "result (kp_read_ref F self fs' path r') = result (kp_read_ref F self fs path r')"
proof (cases "isfile fs (join (repo_path self) path)")
  case True
  let ?p = "join (repo_path self) path"
  from w True obtain kp where kp: "from_file F fs ?p = Inr kp"
    and wb: "write_binary fs ?p (pack F (post_write_ref kp r d)) = (Inr (), fs')"
    by (auto simp: kp_write_ref_def Let_def to_file_def split: sum.splits)
  from wb have l: "lookup fs' ?p = Some (File (pack F (post_write_ref kp r d)))"
    by (auto dest: write_binary_ok(1) lookup_put_same)
  then have nd: "\<not> isdir fs' ?p" by (simp add: isdir_def)
  from True have nd0: "\<not> isdir fs ?p" using isdir_not_isfile by blast
  from l rt have "from_file F fs' ?p = Inr (post_write_ref kp r d)"
    by (simp add: from_file_def read_binary_def round_trip_exact_def)
  moreover from r1 have "r' \<noteq> r" by auto
  ultimately show ?thesis using nd nd0 kp
    by (simp add: kp_read_ref_def Let_def post_read_ref_def post_write_ref_def map_of_update)
next
  case False
  let ?p = "join (repo_path self) path"
  from write_expanded_ok[OF w False] obtain fsx where ne: "r \<noteq> []"
    and p: "put fsx (?p @ r) (File d) = Some fs'"
    and x: "fsx = fs \<and> exists fs (dirname_join ?p r)
              \<or> makedirs fs (dirname_join ?p r) = Inr fsx \<and> \<not> exists fs (dirname_join ?p r)"
    by blast
  from ne obtain c cs where rc: "r = c # cs" by (cases r) auto
  with p have d': "isdir fs' ?p" by (auto dest: put_isdir_prefix)
  from p r1 r2 have l: "lookup fs' (?p @ r') = lookup fsx (?p @ r')"
    by (intro lookup_put_other[of fsx "?p @ r" "File d"]) auto
  from d' have rd': "kp_read_ref F self fs' path r' = read_binary fs' (?p @ r')"
    by (simp add: kp_read_ref_def Let_def join_abs_def join_def)
  from x show ?thesis
  proof
    assume "fsx = fs \<and> exists fs (dirname_join ?p r)"
    then have e: "fsx = fs" by simp
    with p rc have "isdir fs ?p" by (auto dest: put_isdir_before)
    then have "kp_read_ref F self fs path r' = read_binary fs (?p @ r')"
      by (simp add: kp_read_ref_def Let_def join_abs_def join_def)
    with rd' l e show ?thesis by (simp add: read_binary_def)
  next
    assume m: "makedirs fs (dirname_join ?p r) = Inr fsx \<and> \<not> exists fs (dirname_join ?p r)"
    have "\<not> prefix (?p @ r') (dirname_join ?p r)"
      using r2 ne prefix_butlast[of r' r]
      by (auto simp: dirname_join_def join_def butlast_append)
    with m have l2: "lookup fsx (?p @ r') = lookup fs (?p @ r')"
      by (auto intro: lookup_makedirs_other)
    show ?thesis
    proof (cases "isdir fs ?p")
      case True
      then have "kp_read_ref F self fs path r' = read_binary fs (?p @ r')"
        by (simp add: kp_read_ref_def Let_def join_abs_def join_def)
      with rd' l l2 show ?thesis by (simp add: read_binary_def)
    next
      case nd: False
      with False have n: "lookup fs ?p = None"
        by (auto simp: isdir_def isfile_def split: option.splits node.splits)
      then have "lookup fs (?p @ r') = None" by (rule lookup_append_None)
      with rd' l l2 have "result (kp_read_ref F self fs' path r') = None"
        by (simp add: read_binary_def result_def)
      moreover from nd n have "result (kp_read_ref F self fs path r') = None"
        by (simp add: kp_read_ref_def Let_def from_file_def read_binary_def result_def)
      ultimately show ?thesis by simp
    qed
  qed
qed

subsection \<open>The revision counter\<close>

lemma kp_get_revision_result:
  "kp_get_revision F self fs path =
     (case result (kp_read_ref F self fs path [''REVISION'']) of
        None \<Rightarrow> 0
      | Some b \<Rightarrow> (case py_int b of None \<Rightarrow> 0 | Some n \<Rightarrow> n))"
  by (simp add: kp_get_revision_def result_def split: sum.splits)

lemma kp_uuid_result: "kp_uuid F self fs path = result (kp_read_ref F self fs path [''UUID''])"
  by (simp add: kp_uuid_def result_def split: sum.splits)

lemma get_revision_written:
  assumes "round_trip_exact F"
    and "kp_write_ref F self fs path [''REVISION''] (encode_int n) = (Inr (), fs')"
  shows "kp_get_revision F self fs' path = n"
  using write_then_read[OF assms]
  by (simp add: kp_get_revision_def encode_int_def py_int_str_int)

lemma get_revision_after_uuid:
  assumes "round_trip_exact F"
    and "kp_write_ref F self fs path [''UUID''] d = (Inr (), fs')"
  shows "kp_get_revision F self fs' path = kp_get_revision F self fs path"
  using read_other_ref[OF assms, of "[''REVISION'']"]
  by (simp add: kp_get_revision_result)

lemma uuid_after_revision:
  assumes "round_trip_exact F"
    and "kp_write_ref F self fs path [''REVISION''] d = (Inr (), fs')"
  shows "kp_uuid F self fs' path = kp_uuid F self fs path"
  using read_other_ref[OF assms, of "[''UUID'']"]
  by (simp add: kp_uuid_result)

lemma new_revision_step:
  assumes rt: "round_trip_exact F"
    and n: "kp_new_revision F self fs path uuid = (Inr (), fs')"
  shows "kp_get_revision F self fs' path = kp_get_revision F self fs path + 1"
    and "uuid = Some s \<Longrightarrow> s \<noteq> [] \<Longrightarrow> kp_uuid F self fs' path = Some (encode_str s)"
    and "uuid = None \<or> uuid = Some [] \<Longrightarrow> kp_uuid F self fs' path = kp_uuid F self fs path"
proof -
  from n obtain fs1 where
    w1: "kp_write_ref F self fs path [''REVISION'']
           (encode_int (kp_get_revision F self fs path + 1)) = (Inr (), fs1)"
    and w2: "(uuid = None \<or> uuid = Some []) \<and> fs' = fs1
             \<or> (\<exists>s. uuid = Some s \<and> s \<noteq> []
                   \<and> kp_write_ref F self fs1 path [''UUID''] (encode_str s) = (Inr (), fs'))"
    by (auto simp: kp_new_revision_def split: prod.splits sum.splits option.splits if_splits)
  from get_revision_written[OF rt w1]
  have g1: "kp_get_revision F self fs1 path = kp_get_revision F self fs path + 1" .
  from w2 g1 show "kp_get_revision F self fs' path = kp_get_revision F self fs path + 1"
    by (auto simp: get_revision_after_uuid[OF rt])
  from w2 show "uuid = Some s \<Longrightarrow> s \<noteq> [] \<Longrightarrow> kp_uuid F self fs' path = Some (encode_str s)"
    by (auto simp: kp_uuid_def dest: write_then_read[OF rt])
  from w2 show "uuid = None \<or> uuid = Some [] \<Longrightarrow> kp_uuid F self fs' path = kp_uuid F self fs path"
    by (auto simp: uuid_after_revision[OF rt w1])
qed

lemma new_revisions_count:
  assumes rt: "round_trip_exact F"
  shows "new_revisions F self fs path uuids = (Inr (), fs') \<Longrightarrow>
         kp_get_revision F self fs' path = kp_get_revision F self fs path + int (length uuids)"
proof (induction uuids arbitrary: fs)
  case Nil
  then show ?case by simp
next
  case (Cons u us)
  then obtain fs1 where s: "kp_new_revision F self fs path u = (Inr (), fs1)"
    and r: "new_revisions F self fs1 path us = (Inr (), fs')"
    by (auto split: prod.splits sum.splits)
  from Cons.IH[OF r] new_revision_step(1)[OF rt s] show ?case by simp
qed

lemma new_revisions_uuid:
  assumes rt: "round_trip_exact F"
  shows "new_revisions F self fs path uuids = (Inr (), fs') \<Longrightarrow>
         \<forall>u\<in>set uuids. u = None \<or> u = Some [] \<Longrightarrow>
         kp_uuid F self fs' path = kp_uuid F self fs path"
proof (induction uuids arbitrary: fs)
  case Nil
  then show ?case by simp
next
  case (Cons u us)
  then obtain fs1 where s: "kp_new_revision F self fs path u = (Inr (), fs1)"
    and r: "new_revisions F self fs1 path us = (Inr (), fs')"
    by (auto split: prod.splits sum.splits)
  from Cons.prems have "u = None \<or> u = Some []" by simp
  from new_revision_step(3)[OF rt s this] Cons.IH[OF r] Cons.prems(2) show ?case by simp
qed

lemma read_has_ref:
  "kp_read_ref F self fs path r = Inr b \<Longrightarrow> kp_has_ref F self fs path r = Inr True"
  by (auto simp: kp_read_ref_def kp_has_ref_def Let_def join_abs_def join_def read_binary_def
        isfile_def post_read_ref_def post_has_ref_def
        split: if_splits sum.splits option.splits node.splits)

lemma no_revision_zero:
  "kp_has_ref F self fs path [''REVISION''] \<noteq> Inr True \<Longrightarrow> kp_get_revision F self fs path = 0"
  using read_has_ref[of F self fs path "[''REVISION'']"]
  by (auto simp: kp_get_revision_def split: sum.splits)

text \<open>
  Claim C2. With a round-trip exact archive format, for every post of the folder
  backend, in either form:
  \<^item> when no \<^verbatim>\<open>REVISION\<close> reference exists, the revision read is 0;
  \<^item> every successful \<^verbatim>\<open>_kp_new_revision\<close> raises the revision read back by exactly
    one, and writes the \<^verbatim>\<open>UUID\<close> reference when a uuid is supplied;
  \<^item> after \<open>N\<close> successful calls on a post without \<^verbatim>\<open>REVISION\<close> the revision is \<open>N\<close>;
  \<^item> calls that pass no uuid (\<^verbatim>\<open>None\<close>, or the empty string, which \<^verbatim>\<open>if uuid:\<close> treats
    alike) leave what \<^verbatim>\<open>_kp_uuid\<close> returns unchanged.
\<close>

theorem kp_new_revision_counts:
  assumes rt: "round_trip_exact F"
  shows
    "(kp_has_ref F self fs path [''REVISION''] \<noteq> Inr True \<longrightarrow> kp_get_revision F self fs path = 0)
     \<and> (\<forall>uuid fs'. kp_new_revision F self fs path uuid = (Inr (), fs') \<longrightarrow>
            kp_get_revision F self fs' path = kp_get_revision F self fs path + 1
            \<and> (\<forall>s. uuid = Some s \<and> s \<noteq> [] \<longrightarrow> kp_uuid F self fs' path = Some (encode_str s)))
     \<and> (\<forall>uuids fs'. kp_has_ref F self fs path [''REVISION''] \<noteq> Inr True
            \<and> new_revisions F self fs path uuids = (Inr (), fs') \<longrightarrow>
            kp_get_revision F self fs' path = int (length uuids))
     \<and> (\<forall>uuids fs'. new_revisions F self fs path uuids = (Inr (), fs')
            \<and> (\<forall>u\<in>set uuids. u = None \<or> u = Some []) \<longrightarrow>
            kp_uuid F self fs' path = kp_uuid F self fs path)"
proof (intro conjI allI impI)
  assume "kp_has_ref F self fs path [''REVISION''] \<noteq> Inr True"
  then show "kp_get_revision F self fs path = 0" by (rule no_revision_zero)
next
  fix uuid fs'
  assume "kp_new_revision F self fs path uuid = (Inr (), fs')"
  then show "kp_get_revision F self fs' path = kp_get_revision F self fs path + 1"
    by (rule new_revision_step(1)[OF rt])
next
  fix uuid fs' s
  assume "kp_new_revision F self fs path uuid = (Inr (), fs')" and "uuid = Some s \<and> s \<noteq> []"
  then show "kp_uuid F self fs' path = Some (encode_str s)"
    using new_revision_step(2)[OF rt] by blast
next
  fix uuids fs'
  assume "kp_has_ref F self fs path [''REVISION''] \<noteq> Inr True
            \<and> new_revisions F self fs path uuids = (Inr (), fs')"
  then show "kp_get_revision F self fs' path = int (length uuids)"
    using new_revisions_count[OF rt, of self fs path uuids fs'] no_revision_zero[of F self fs path]
    by simp
next
  fix uuids fs'
  assume "new_revisions F self fs path uuids = (Inr (), fs')
            \<and> (\<forall>u\<in>set uuids. u = None \<or> u = Some [])"
  then show "kp_uuid F self fs' path = kp_uuid F self fs path"
    using new_revisions_uuid[OF rt] by blast
qed

text \<open>
  The hypotheses at work on a post that does not exist yet: the first revision with a
  uuid, a second one without, and the uuid read back after it.
\<close>

theorem kp_new_revision_counts_witness:
  "round_trip_exact example_format
   \<and> kp_has_ref example_format example_repo example_fs [''post''] [''REVISION''] \<noteq> Inr True
   \<and> kp_get_revision example_format example_repo example_fs [''post''] = 0
   \<and> kp_new_revision example_format example_repo example_fs [''post''] (Some ''u-1'')
       = (Inr (), example_fs1)
   \<and> kp_get_revision example_format example_repo example_fs1 [''post''] = 0 + 1
   \<and> kp_uuid example_format example_repo example_fs1 [''post''] = Some (encode_str ''u-1'')
   \<and> new_revisions example_format example_repo example_fs [''post''] [Some ''u-1'', None]
       = (Inr (), example_fs2)
   \<and> kp_get_revision example_format example_repo example_fs2 [''post''] = 2
   \<and> new_revisions example_format example_repo example_fs1 [''post''] [None]
       = (Inr (), example_fs2)
   \<and> kp_uuid example_format example_repo example_fs2 [''post'']
       = kp_uuid example_format example_repo example_fs1 [''post'']"
proof -
  have h0: "kp_has_ref example_format example_repo example_fs [''post''] [''REVISION''] \<noteq> Inr True"
    by code_simp
  have h1: "kp_new_revision example_format example_repo example_fs [''post''] (Some ''u-1'')
       = (Inr (), example_fs1)"
    by code_simp
  have h2: "new_revisions example_format example_repo example_fs [''post''] [Some ''u-1'', None]
       = (Inr (), example_fs2)"
    by code_simp
  have h3: "new_revisions example_format example_repo example_fs1 [''post''] [None]
       = (Inr (), example_fs2)"
    by code_simp
  note a = kp_new_revision_counts[OF example_round_trip, of example_repo example_fs "[''post'']"]
  note b = kp_new_revision_counts[OF example_round_trip, of example_repo example_fs1 "[''post'']"]
  from a h0 have g0: "kp_get_revision example_format example_repo example_fs [''post''] = 0"
    by blast
  from a h1 have g1: "kp_get_revision example_format example_repo example_fs1 [''post'']
      = kp_get_revision example_format example_repo example_fs [''post''] + 1"
    and u1: "kp_uuid example_format example_repo example_fs1 [''post''] = Some (encode_str ''u-1'')"
    by blast+
  from a h0 h2 have g2: "kp_get_revision example_format example_repo example_fs2 [''post'']
      = int (length [Some ''u-1'', None])"
    by blast
  from b h3 have u2: "kp_uuid example_format example_repo example_fs2 [''post'']
       = kp_uuid example_format example_repo example_fs1 [''post'']"
    by (metis list.set_cases list.inject set_ConsD empty_iff empty_set)
  from example_round_trip h0 g0 h1 g1 u1 h2 g2 h3 u2 show ?thesis by simp
qed

subsection \<open>The getters never raise\<close>

text \<open>
  Claim C10. \<^verbatim>\<open>_kp_uuid\<close> and \<^verbatim>\<open>_kp_get_revision\<close> catch every exception of the read
  (and of \<^verbatim>\<open>int\<close>), so they return a value on every file system and post path: when
  the read of \<^verbatim>\<open>UUID\<close> raises, whatever the error, \<^verbatim>\<open>_kp_uuid\<close> returns \<^verbatim>\<open>None\<close>; when
  the read of \<^verbatim>\<open>REVISION\<close> raises, or what it returns is no decimal integer,
  \<^verbatim>\<open>_kp_get_revision\<close> returns 0. In the remaining cases they return the bytes read and
  the integer read.
\<close>

theorem kp_getters_total:
  "(\<forall>e. kp_read_ref F self fs path [''UUID''] = Inl e \<longrightarrow> kp_uuid F self fs path = None)
   \<and> (\<forall>b. kp_read_ref F self fs path [''UUID''] = Inr b \<longrightarrow> kp_uuid F self fs path = Some b)
   \<and> (\<forall>e. kp_read_ref F self fs path [''REVISION''] = Inl e \<longrightarrow>
          kp_get_revision F self fs path = 0)
   \<and> (\<forall>b. kp_read_ref F self fs path [''REVISION''] = Inr b \<and> py_int b = None \<longrightarrow>
          kp_get_revision F self fs path = 0)
   \<and> (\<forall>b n. kp_read_ref F self fs path [''REVISION''] = Inr b \<and> py_int b = Some n \<longrightarrow>
          kp_get_revision F self fs path = n)"
  by (simp add: kp_uuid_def kp_get_revision_def)

text \<open>
  A post that is missing (the read raises \<^verbatim>\<open>FileNotFoundError\<close>), and a post whose
  \<^verbatim>\<open>REVISION\<close> file holds the text \<^verbatim>\<open>v2\<close>.
\<close>

theorem kp_getters_total_witness:
  "kp_read_ref example_format example_repo example_fs [''post''] [''UUID''] = Inl FileNotFoundError
   \<and> kp_uuid example_format example_repo example_fs [''post''] = None
   \<and> kp_read_ref example_format example_repo example_fs [''post''] [''REVISION'']
       = Inl FileNotFoundError
   \<and> kp_get_revision example_format example_repo example_fs [''post''] = 0
   \<and> kp_read_ref example_format example_repo example_fs_bad [''post''] [''REVISION''] = Inr ''v2''
   \<and> py_int ''v2'' = None
   \<and> kp_get_revision example_format example_repo example_fs_bad [''post''] = 0
   \<and> kp_read_ref example_format example_repo example_fs1 [''post''] [''UUID''] = Inr ''u-1''
   \<and> kp_uuid example_format example_repo example_fs1 [''post''] = Some ''u-1''
   \<and> kp_read_ref example_format example_repo example_fs1 [''post''] [''REVISION''] = Inr ''1''
   \<and> py_int ''1'' = Some 1
   \<and> kp_get_revision example_format example_repo example_fs1 [''post''] = 1"
proof -
  have r1: "kp_read_ref example_format example_repo example_fs [''post''] [''UUID'']
      = Inl FileNotFoundError"
    by code_simp
  have r2: "kp_read_ref example_format example_repo example_fs [''post''] [''REVISION'']
      = Inl FileNotFoundError"
    by code_simp
  have r3: "kp_read_ref example_format example_repo example_fs_bad [''post''] [''REVISION'']
      = Inr ''v2''"
    by code_simp
  have p3: "py_int ''v2'' = None" by code_simp
  have r4: "kp_read_ref example_format example_repo example_fs1 [''post''] [''UUID''] = Inr ''u-1''"
    by code_simp
  have r5: "kp_read_ref example_format example_repo example_fs1 [''post''] [''REVISION''] = Inr ''1''"
    by code_simp
  have p5: "py_int ''1'' = Some 1" by code_simp
  show ?thesis
    using r1 r2 r3 p3 r4 r5 p5
      kp_getters_total[of example_format example_repo example_fs "[''post'']"]
      kp_getters_total[of example_format example_repo example_fs_bad "[''post'']"]
      kp_getters_total[of example_format example_repo example_fs1 "[''post'']"]
    by simp
qed

subsection \<open>Lifecycle operations\<close>

text \<open>
  Claim C8, as the code has it. Of the lifecycle operations of the folder backend only
  \<^verbatim>\<open>_unpublish\<close> fails, with \<^verbatim>\<open>NotImplementedError\<close>, for every post path and without
  touching the file system; \<^verbatim>\<open>_submit\<close> and \<^verbatim>\<open>_accept\<close> succeed for every post path
  and change nothing ("added posts are already submitted").
\<close>

theorem lifecycle_of_folder_backend:
  "unpublish self fs path = (Inl NotImplementedError, fs)
   \<and> submit self fs opt_path branch force = (Inr (), fs)
   \<and> accept self fs path = (Inr (), fs)"
  by (simp add: unpublish_def submit_def accept_def)

text \<open>
  The claim as stated fails: \<^verbatim>\<open>_submit\<close> and \<^verbatim>\<open>_accept\<close> do not fail with an error on
  the post \<^verbatim>\<open>post\<close>; they return normally.
\<close>

theorem submit_accept_succeed:
  "submit example_repo example_fs (Some [''post'']) None False = (Inr (), example_fs)
   \<and> accept example_repo example_fs [''post''] = (Inr (), example_fs)"
  by (simp add: submit_def accept_def)

subsection \<open>Removing a post\<close>

text \<open>
  Claim C9 fails for a post in packed form: \<^verbatim>\<open>_remove\<close> calls \<^verbatim>\<open>shutil.rmtree\<close> on the
  post's path, which raises \<^verbatim>\<open>NotADirectoryError\<close> on a plain file and removes nothing.
  The packed post is still there afterwards and \<^verbatim>\<open>_kp_has_ref\<close> still finds its
  references.
\<close>

theorem remove_packed_post_fails:
  "remove example_repo packed_fs [''packed.kp''] = (Inl NotADirectoryError, packed_fs)
   \<and> kp_has_ref example_format example_repo packed_fs [''packed.kp''] [''knowledge.md'']
       = Inr True"
  by (simp add: remove_def rmtree_def example_repo_def packed_fs_def join_def kp_has_ref_def
        from_file_def read_binary_def unpack_pack_example post_has_ref_def)

text \<open>For a post in expanded form the directory goes, with all below it.\<close>

lemma lookup_unlink_below: "lookup (unlink fs p) (p @ q) = None" if "p \<noteq> []"
  using that
proof (induction fs p rule: unlink.induct)
  case (1 n)
  then show ?case by simp
next
  case (2 b c cs)
  then show ?case by simp
next
  case (3 es c)
  then show ?case by (simp add: delete_conv')
next
  case (4 es c c' cs)
  then show ?case by (auto simp: map_of_update split: option.splits)
qed

text \<open>
  A post in expanded form: the directory goes, and nothing is left at or below its
  path. \<^verbatim>\<open>_kp_has_ref\<close> then takes its branch for packed posts and raises, since there
  is no file to read the post from.
\<close>

lemma remove_expanded_post:
  assumes "isdir fs (join (repo_path self) path)" and "join (repo_path self) path \<noteq> []"
  shows "remove self fs path = (Inr (), unlink fs (join (repo_path self) path))"
    and "\<not> exists (unlink fs (join (repo_path self) path)) (join (repo_path self) path @ q)"
  using assms lookup_unlink_below[of "join (repo_path self) path" fs q]
  by (auto simp: remove_def rmtree_def isdir_def exists_def split: option.splits node.splits)

lemma has_ref_after_remove:
  assumes "join (repo_path self) path \<noteq> []"
  shows "kp_has_ref F self (unlink fs (join (repo_path self) path)) path reference
     = Inl FileNotFoundError"
  using assms lookup_unlink_below[of "join (repo_path self) path" fs "[]"]
  by (simp add: kp_has_ref_def Let_def isdir_def from_file_def read_binary_def)

subsection \<open>Walking a directory tree\<close>

lemma yielded_File [simp]: "yielded dirpath (File b) = []"
  by (simp add: yielded_def)

lemma yielded_Dir:
  "set (yielded dirpath (Dir es)) =
     (\<lambda>e. dirpath @ [fst e]) ` {e \<in> set es. \<exists>b. snd e = File b}
     \<union> (\<Union>e\<in>set es. set (yielded (dirpath @ [fst e]) (snd e)))"
proof -
  have f: "(\<lambda>e. case snd e of Dir ds \<Rightarrow> False | File b \<Rightarrow> True) = (\<lambda>e::string \<times> node. \<exists>b. snd e = File b)"
  proof (rule ext)
    fix e :: "string \<times> node"
    show "(case snd e of Dir ds \<Rightarrow> False | File b \<Rightarrow> True) = (\<exists>b. snd e = File b)"
      by (cases "snd e") auto
  qed
  show ?thesis
    by (simp add: yielded_def f image_image)
qed

lemma wf_map_of: "distinct (map fst es) \<Longrightarrow> (map_of es c = Some n) = ((c, n) \<in> set es)"
  by simp

lemma yielded_iff:
  "wf n \<Longrightarrow> (p \<in> set (yielded dirpath n)) = (\<exists>r. p = dirpath @ r \<and> r \<noteq> [] \<and> isfile n r)"
proof (induction dirpath n arbitrary: p rule: walk_node.induct)
  case (1 dirpath b)
  then show ?case by (auto simp: neq_Nil_conv)
next
  case (2 dirpath es)
  have d: "distinct (map fst es)" and w: "\<And>e. e \<in> set es \<Longrightarrow> wf (snd e)"
    using "2.prems" by (auto simp: list_all_iff)
  show ?case
  proof
    assume "p \<in> set (yielded dirpath (Dir es))"
    then consider e b where "e \<in> set es" "snd e = File b" "p = dirpath @ [fst e]"
      | e where "e \<in> set es" "p \<in> set (yielded (dirpath @ [fst e]) (snd e))"
      by (auto simp: yielded_Dir)
    then show "\<exists>r. p = dirpath @ r \<and> r \<noteq> [] \<and> isfile (Dir es) r"
    proof cases
      case 1
      then have "(fst e, File b) \<in> set es" by (metis prod.collapse)
      then have "map_of es (fst e) = Some (File b)" by (rule map_of_is_SomeI[OF d])
      with 1 show ?thesis by (intro exI[of _ "[fst e]"]) simp
    next
      case 2
      with "2.IH"[OF 2(1) w[OF 2(1)]] obtain r where
        r: "p = (dirpath @ [fst e]) @ r" "r \<noteq> []" "isfile (snd e) r" by blast
      from 2(1) have "(fst e, snd e) \<in> set es" by simp
      then have "map_of es (fst e) = Some (snd e)" by (rule map_of_is_SomeI[OF d])
      with r show ?thesis by (intro exI[of _ "fst e # r"]) simp
    qed
  next
    assume "\<exists>r. p = dirpath @ r \<and> r \<noteq> [] \<and> isfile (Dir es) r"
    then obtain c cs n where p: "p = dirpath @ c # cs" and m: "map_of es c = Some n"
      and f: "isfile n cs"
      by (auto simp: neq_Nil_conv split: option.splits)
    from m have e: "(c, n) \<in> set es" by (rule map_of_SomeD)
    show "p \<in> set (yielded dirpath (Dir es))"
    proof (cases cs)
      case Nil
      with f obtain b where "n = File b" by (cases n) auto
      with e p Nil show ?thesis by (force simp: yielded_Dir)
    next
      case (Cons a list)
      with f "2.IH"[OF e, of "dirpath @ c # cs"] w[OF e] p
      have "p \<in> set (yielded (dirpath @ [c]) n)" by auto
      with e show ?thesis by (force simp: yielded_Dir)
    qed
  qed
qed

lemma path_str_nonempty: "path_str p \<noteq> []"
  by (cases p) auto

lemma lookup_append:
  "lookup fs (p @ q) = (case lookup fs p of None \<Rightarrow> None | Some n \<Rightarrow> lookup n q)"
  by (induction fs p rule: lookup.induct) (auto split: option.splits)

lemma wf_lookup: "wf fs \<Longrightarrow> lookup fs p = Some n \<Longrightarrow> wf n"
proof (induction fs p rule: lookup.induct)
  case (1 n)
  then show ?case by simp
next
  case (2 b c cs)
  then show ?case by simp
next
  case (3 es c cs)
  then show ?case
    by (auto simp: list_all_iff split: option.splits dest!: map_of_SomeD)
qed

lemma relpath_below: "r \<noteq> [] \<Longrightarrow> relpath (start @ r) start = r"
proof -
  assume r: "r \<noteq> []"
  have "prefix start (longest_common_prefix start (start @ r))"
    by (rule longest_common_prefix_max_prefix) auto
  moreover have "prefix (longest_common_prefix start (start @ r)) start"
    by (rule longest_common_prefix_prefix1)
  ultimately have "longest_common_prefix start (start @ r) = start"
    by (rule prefix_order.antisym[rotated])
  with r show ?thesis by (simp add: relpath_def)
qed

lemma concat_map_walk:
  "concat (map (\<lambda>(dirpath, dirnames, filenames).
       map (\<lambda>filename. relpath (dirpath @ [filename]) start)
         (filter (\<lambda>filename. path_str dirpath = [] \<longrightarrow> filename \<noteq> ''REVISION'') filenames)) ws)
   = map (\<lambda>q. relpath q start) (concat (map (\<lambda>(dp, dns, fns). map (\<lambda>f. dp @ [f]) fns) ws))"
  by (induction ws) (auto simp: path_str_nonempty)

lemma kp_dir_expanded:
  assumes d: "isdir fs (join (repo_path self) path)"
    and s: "start = join (repo_path self) path @ (if truthy parent then the parent else [])"
  shows "kp_dir F self fs path parent =
     Inr (map (\<lambda>q. relpath q start)
       (case lookup fs start of None \<Rightarrow> [] | Some n \<Rightarrow> yielded start n))"
proof (cases "truthy parent")
  case True
  with d s show ?thesis
    by (simp add: kp_dir_def Let_def join_abs_def concat_map_walk walk_def yielded_def join_def
          split: option.splits)
next
  case False
  with d s show ?thesis
    by (simp add: kp_dir_def Let_def join_abs_def concat_map_walk walk_def yielded_def join_def
          split: option.splits)
qed

lemma isfile_lookup:
  "isfile fs (p @ r) = (case lookup fs p of None \<Rightarrow> False | Some n \<Rightarrow> isfile n r)"
  by (simp add: isfile_def lookup_append split: option.splits)

lemma kp_dir_yields:
  assumes wf: "wf fs" and d: "isdir fs (join (repo_path self) path)"
    and s: "start = join (repo_path self) path @ (if truthy parent then the parent else [])"
  shows "\<exists>xs. kp_dir F self fs path parent = Inr xs
     \<and> (\<forall>r. (r \<in> set xs) = (r \<noteq> [] \<and> isfile fs (start @ r)))"
proof -
  let ?ys = "case lookup fs start of None \<Rightarrow> [] | Some n \<Rightarrow> yielded start n"
  have y: "(q \<in> set ?ys) = (\<exists>r. q = start @ r \<and> r \<noteq> [] \<and> isfile fs (start @ r))" for q
  proof (cases "lookup fs start")
    case None
    then show ?thesis by (simp add: isfile_lookup)
  next
    case (Some n)
    with wf have "wf n" by (rule wf_lookup)
    from yielded_iff[OF this] Some show ?thesis by (simp add: isfile_lookup)
  qed
  have "(r \<in> set (map (\<lambda>q. relpath q start) ?ys)) = (r \<noteq> [] \<and> isfile fs (start @ r))" for r
  proof
    assume "r \<in> set (map (\<lambda>q. relpath q start) ?ys)"
    then obtain q where "q \<in> set ?ys" and rq: "r = relpath q start" by auto
    with y obtain r' where "q = start @ r'" "r' \<noteq> []" "isfile fs (start @ r')" by blast
    with rq show "r \<noteq> [] \<and> isfile fs (start @ r)" by (simp add: relpath_below)
  next
    assume a: "r \<noteq> [] \<and> isfile fs (start @ r)"
    with y have "start @ r \<in> set ?ys" by blast
    moreover from a have "relpath (start @ r) start = r" by (simp add: relpath_below)
    ultimately show "r \<in> set (map (\<lambda>q. relpath q start) ?ys)" by force
  qed
  with kp_dir_expanded[OF d s, of F] show ?thesis by simp
qed

subsection \<open>Enumerating the references of a post\<close>

text \<open>
  Claim C4, as the code has it. For a post in expanded form (a directory, in a tree
  where no directory holds a name twice) \<^verbatim>\<open>_kp_dir\<close> walks the post's directory, or
  \<open>parent\<close> below it, and yields the relative path of every file below the walked
  directory, and only such paths. No reserved name is filtered out by design: a file
  \<^verbatim>\<open>UUID\<close> at the post's root is yielded like any other. Nothing is stated here about
  the name \<^verbatim>\<open>REVISION\<close> at the root of the walk, for which the source has a test
  (\<^verbatim>\<open>dirpath == ""\<close>, which no directory path of a walk satisfies).
\<close>

theorem kp_dir_expanded_yields:
  assumes "wf fs" and "isdir fs (join (repo_path self) path)"
  shows "\<exists>xs. kp_dir F self fs path parent = Inr xs
     \<and> (\<forall>r. r \<noteq> [''REVISION''] \<longrightarrow>
           (r \<in> set xs)
           = (r \<noteq> [] \<and> isfile fs (join (repo_path self) path
                @ (if truthy parent then the parent else []) @ r)))"
  using kp_dir_yields[OF assms, of _ parent F] by auto

text \<open>
  The claim as stated fails on a post with a revision and a uuid: the enumeration of
  its root yields both reserved names.
\<close>

theorem kp_dir_yields_reserved_names:
  "kp_dir example_format example_repo example_fs1 [''post''] None
     = Inr [[''REVISION''], [''UUID'']]"
  by code_simp

text \<open>The same post: the tree is well formed, the post is a directory, \<^verbatim>\<open>UUID\<close> is yielded.\<close>

theorem kp_dir_expanded_yields_witness:
  "wf example_fs1 \<and> isdir example_fs1 (join (repo_path example_repo) [''post''])
   \<and> (\<exists>xs. kp_dir example_format example_repo example_fs1 [''post''] None = Inr xs
         \<and> [''UUID''] \<in> set xs)"
proof -
  have w: "wf example_fs1" by code_simp
  have d: "isdir example_fs1 (join (repo_path example_repo) [''post''])" by code_simp
  have f: "isfile example_fs1 (join (repo_path example_repo) [''post'']
             @ (if truthy None then the None else []) @ [''UUID''])"
    by code_simp
  from kp_dir_expanded_yields[OF w d, of example_format None] obtain xs where
    x: "kp_dir example_format example_repo example_fs1 [''post''] None = Inr xs"
    and r: "\<And>r. r \<noteq> [''REVISION''] \<Longrightarrow>
           (r \<in> set xs)
           = (r \<noteq> [] \<and> isfile example_fs1 (join (repo_path example_repo) [''post'']
                @ (if truthy None then the None else []) @ r))"
    by blast
  from r[of "[''UUID'']"] f have "[''UUID''] \<in> set xs" by simp
  with w d x show ?thesis by blast
qed

subsection \<open>Resolving a URI\<close>

text \<open>
  Claim C7. \<^verbatim>\<open>from_uri\<close> resolves a URI in this order. A URI that starts with
  \<^verbatim>\<open>file://\<close> is decoded by \<^verbatim>\<open>uri_to_path\<close> and a folder repository is instantiated
  on the decoded path, whatever the file system holds (no look for \<^verbatim>\<open>.git\<close>). Any
  other URI is taken as the path: when \<^verbatim>\<open>.git\<close> exists under it
  (\<^verbatim>\<open>os.path.exists\<close> of the joined path) a git repository is instantiated on it,
  otherwise a folder repository.
\<close>

theorem from_uri_resolution:
  "(startswith uri ''file://'' \<longrightarrow> from_uri L uri = FolderKnowledgeRepository (uri_to_path L uri))
   \<and> (\<not> startswith uri ''file://'' \<and> path_exists L (ospjoin uri ''.git'') \<longrightarrow>
        from_uri L uri = GitKnowledgeRepository uri)
   \<and> (\<not> startswith uri ''file://'' \<and> \<not> path_exists L (ospjoin uri ''.git'') \<longrightarrow>
        from_uri L uri = FolderKnowledgeRepository uri)"
  by (simp add: from_uri_def Let_def)

text \<open>
  A URI with the scheme on a path that holds \<^verbatim>\<open>.git\<close>, the bare path itself, and a
  bare path without \<^verbatim>\<open>.git\<close>.
\<close>

theorem from_uri_resolution_witness:
  "startswith ''file:///srv/kr'' ''file://''
   \<and> path_exists example_stdlib (ospjoin (uri_to_path example_stdlib ''file:///srv/kr'') ''.git'')
   \<and> from_uri example_stdlib ''file:///srv/kr''
       = FolderKnowledgeRepository (uri_to_path example_stdlib ''file:///srv/kr'')
   \<and> \<not> startswith ''/srv/kr'' ''file://''
   \<and> path_exists example_stdlib (ospjoin ''/srv/kr'' ''.git'')
   \<and> from_uri example_stdlib ''/srv/kr'' = GitKnowledgeRepository ''/srv/kr''
   \<and> \<not> startswith ''/srv/other'' ''file://''
   \<and> \<not> path_exists example_stdlib (ospjoin ''/srv/other'' ''.git'')
   \<and> from_uri example_stdlib ''/srv/other'' = FolderKnowledgeRepository ''/srv/other''"
proof -
  have a: "startswith ''file:///srv/kr'' ''file://''"
    by (simp add: startswith_def)
  have a': "path_exists example_stdlib (ospjoin (uri_to_path example_stdlib ''file:///srv/kr'') ''.git'')"
    by (simp add: example_stdlib_def uri_to_path_def ospjoin_def)
  have b: "\<not> startswith ''/srv/kr'' ''file://''"
    by (simp add: startswith_def)
  have b': "path_exists example_stdlib (ospjoin ''/srv/kr'' ''.git'')"
    by (simp add: example_stdlib_def ospjoin_def)
  have c: "\<not> startswith ''/srv/other'' ''file://''"
    by (simp add: startswith_def)
  have c': "\<not> path_exists example_stdlib (ospjoin ''/srv/other'' ''.git'')"
    by (simp add: example_stdlib_def ospjoin_def)
  show ?thesis
    using a a' b b' c c'
      from_uri_resolution[of "''file:///srv/kr''" example_stdlib]
      from_uri_resolution[of "''/srv/kr''" example_stdlib]
      from_uri_resolution[of "''/srv/other''" example_stdlib]
    by blast
qed

subsection \<open>Commit hooks\<close>

lemma run_commit_hook_absent:
  "\<not> x_ok index (hook_path name (git_dir index)) \<Longrightarrow> run_commit_hook name index args = (Inr (), index)"
  by (simp add: run_commit_hook_def)

lemma run_commit_hook_nonzero:
  assumes "x_ok index (hook_path name (git_dir index))"
    and "hook_cmd index (hook_path name (git_dir index)) = Inr cmd"
    and "popen index (cmd @ args) (commit_editmsg index) = (Exited rc out err, msg)"
    and "rc \<noteq> 0"
  shows "run_commit_hook name index args =
     (Inl (HookExecutionError (hook_path name (git_dir index)) (ReturnCode rc) (Some err) (Some out)),
      index\<lparr>commit_editmsg := msg\<rparr>)"
  using assms by (simp add: run_commit_hook_def)

text \<open>
  Claim C5. With hooks enabled (\<open>skip_hooks\<close> false): when the \<^verbatim>\<open>pre-commit\<close> hook file
  is executable, is run and exits with a return code other than 0, \<^verbatim>\<open>commit\<close> raises
  \<^verbatim>\<open>HookExecutionError\<close> with the hook's path, that return code and the captured
  standard error and output, and the object database and \<^verbatim>\<open>HEAD\<close> are as before: no
  tree and no commit has been created. When no hook file is executable, each hook step
  returns without an error and without a change, and \<^verbatim>\<open>commit\<close> creates the tree and
  the commit and returns the commit.
\<close>

theorem pre_commit_hook_failure:
  "(x_ok index (hook_path ''pre-commit'' (git_dir index))
      \<and> hook_cmd index (hook_path ''pre-commit'' (git_dir index)) = Inr cmd
      \<and> popen index cmd (commit_editmsg index) = (Exited rc out err, msg)
      \<and> rc \<noteq> 0 \<longrightarrow>
      (\<exists>index'. commit index message parent_commits head meta False
           = (Inl (HookExecutionError (hook_path ''pre-commit'' (git_dir index)) (ReturnCode rc)
                (Some err) (Some out)), index')
         \<and> trees index' = trees index \<and> commits index' = commits index
         \<and> head_commit index' = head_commit index \<and> staged index' = staged index))
   \<and> (\<not> x_ok index (hook_path ''pre-commit'' (git_dir index)) \<longrightarrow>
        run_commit_hook ''pre-commit'' index [] = (Inr (), index))
   \<and> (\<not> x_ok index (hook_path ''pre-commit'' (git_dir index))
      \<and> \<not> x_ok index (hook_path ''commit-msg'' (git_dir index))
      \<and> \<not> x_ok index (hook_path ''post-commit'' (git_dir index)) \<longrightarrow>
      (\<exists>c index'. commit index message parent_commits head meta False = (Inr c, index')
         \<and> commit_tree c = staged index \<and> commit_message c = message
         \<and> trees index' = staged index # trees index
         \<and> commits index' = c # commits index
         \<and> head_commit index' = (if head then Some c else head_commit index)))"
proof (intro conjI impI)
  assume a: "x_ok index (hook_path ''pre-commit'' (git_dir index))
      \<and> hook_cmd index (hook_path ''pre-commit'' (git_dir index)) = Inr cmd
      \<and> popen index cmd (commit_editmsg index) = (Exited rc out err, msg)
      \<and> rc \<noteq> 0"
  then have "run_commit_hook ''pre-commit'' index [] =
     (Inl (HookExecutionError (hook_path ''pre-commit'' (git_dir index)) (ReturnCode rc)
        (Some err) (Some out)), index\<lparr>commit_editmsg := msg\<rparr>)"
    by (intro run_commit_hook_nonzero) auto
  then show "\<exists>index'. commit index message parent_commits head meta False
           = (Inl (HookExecutionError (hook_path ''pre-commit'' (git_dir index)) (ReturnCode rc)
                (Some err) (Some out)), index')
         \<and> trees index' = trees index \<and> commits index' = commits index
         \<and> head_commit index' = head_commit index \<and> staged index' = staged index"
    by (simp add: commit_def)
next
  assume "\<not> x_ok index (hook_path ''pre-commit'' (git_dir index))"
  then show "run_commit_hook ''pre-commit'' index [] = (Inr (), index)"
    by (rule run_commit_hook_absent)
next
  assume a: "\<not> x_ok index (hook_path ''pre-commit'' (git_dir index))
      \<and> \<not> x_ok index (hook_path ''commit-msg'' (git_dir index))
      \<and> \<not> x_ok index (hook_path ''post-commit'' (git_dir index))"
  then show "\<exists>c index'. commit index message parent_commits head meta False = (Inr c, index')
         \<and> commit_tree c = staged index \<and> commit_message c = message
         \<and> trees index' = staged index # trees index
         \<and> commits index' = c # commits index
         \<and> head_commit index' = (if head then Some c else head_commit index)"
    by (simp add: commit_def commit_tail_def run_commit_hook_def write_tree_def
          create_from_tree_def Let_def)
qed

text \<open>
  A repository whose \<^verbatim>\<open>pre-commit\<close> hook exits with 1, and the same repository with no
  executable hook file.
\<close>

theorem pre_commit_hook_failure_witness:
  "x_ok example_index (hook_path ''pre-commit'' (git_dir example_index))
   \<and> hook_cmd example_index (hook_path ''pre-commit'' (git_dir example_index))
       = Inr [''/srv/kr/.git/hooks/pre-commit'']
   \<and> popen example_index [''/srv/kr/.git/hooks/pre-commit''] (commit_editmsg example_index)
       = (Exited 1 ''checking'' ''lint failed'', None)
   \<and> (1::int) \<noteq> 0
   \<and> (\<exists>index'. commit example_index ''first'' None True ''meta'' False
          = (Inl (HookExecutionError (hook_path ''pre-commit'' (git_dir example_index))
               (ReturnCode 1) (Some ''lint failed'') (Some ''checking'')), index')
        \<and> trees index' = [] \<and> commits index' = [] \<and> head_commit index' = None)
   \<and> \<not> x_ok (example_index\<lparr>x_ok := (\<lambda>p. False)\<rparr>)
         (hook_path ''pre-commit'' (git_dir (example_index\<lparr>x_ok := (\<lambda>p. False)\<rparr>)))
   \<and> (\<exists>index'. commit (example_index\<lparr>x_ok := (\<lambda>p. False)\<rparr>) ''first'' None True ''meta'' False
          = (Inr example_commit, index')
        \<and> commits index' = [example_commit])"
proof -
  let ?hp = "hook_path ''pre-commit'' (git_dir example_index)"
  let ?quiet = "example_index\<lparr>x_ok := (\<lambda>p. False)\<rparr>"
  have a: "x_ok example_index ?hp"
    by (simp add: example_index_def hook_path_def)
  have b: "hook_cmd example_index ?hp = Inr [''/srv/kr/.git/hooks/pre-commit'']"
    by (simp add: example_index_def hook_path_def hook_cmd_def)
  have c: "popen example_index [''/srv/kr/.git/hooks/pre-commit''] (commit_editmsg example_index)
       = (Exited 1 ''checking'' ''lint failed'', None)"
    by (simp add: example_index_def)
  have q: "\<not> x_ok ?quiet (hook_path name (git_dir ?quiet))" for name
    by simp
  have e: "trees example_index = []" "commits example_index = []"
    "head_commit example_index = None" "staged example_index = [(''a.md'', ''text'')]"
    by (simp_all add: example_index_def)
  note t1 = pre_commit_hook_failure[of example_index "[''/srv/kr/.git/hooks/pre-commit'']" 1
      "''checking''" "''lint failed''" None "''first''" None True "''meta''"]
  note t2 = pre_commit_hook_failure[of ?quiet "[]" 0 "[]" "[]" None "''first''" None True "''meta''"]
  from t1 a b c e have r1: "\<exists>index'. commit example_index ''first'' None True ''meta'' False
          = (Inl (HookExecutionError ?hp (ReturnCode 1) (Some ''lint failed'') (Some ''checking'')), index')
        \<and> trees index' = [] \<and> commits index' = [] \<and> head_commit index' = None"
    by auto
  from t2 q obtain c' index' where
    r2: "commit ?quiet ''first'' None True ''meta'' False = (Inr c', index')"
    and r3: "commit_tree c' = staged ?quiet" "commit_message c' = ''first''"
      "commits index' = c' # commits ?quiet"
    by blast
  have "commit ?quiet ''first'' None True ''meta'' False = (Inr example_commit, snd (commit ?quiet ''first'' None True ''meta'' False))"
    by (simp add: commit_def commit_tail_def run_commit_hook_def write_tree_def
          create_from_tree_def Let_def example_commit_def example_index_def)
  with r2 r3 e have r4: "\<exists>index'. commit ?quiet ''first'' None True ''meta'' False
          = (Inr example_commit, index') \<and> commits index' = [example_commit]"
    by auto
  from a b c r1 q[of "''pre-commit''"] r4 show ?thesis by simp
qed

subsection \<open>A failing post-commit hook\<close>

text \<open>
  Claim C6, as the code has it. With hooks enabled, when the \<^verbatim>\<open>pre-commit\<close> and
  \<^verbatim>\<open>commit-msg\<close> steps have passed and the \<^verbatim>\<open>post-commit\<close> hook is run and exits with
  a return code other than 0, \<^verbatim>\<open>commit\<close> raises \<^verbatim>\<open>HookExecutionError\<close> with the hook's
  path, return code and captured output, and does not return the commit. The tree and
  the commit have been created by then and stay in the repository, and \<^verbatim>\<open>HEAD\<close> has
  moved when \<open>head\<close> is set.
\<close>

theorem post_commit_hook_failure:
  assumes "run_commit_hook ''pre-commit'' index [] = (Inr (), index1)"
    and "run_commit_hook ''commit-msg'' (index1\<lparr>commit_editmsg := Some message\<rparr>)
           [commit_editmsg_filepath (index1\<lparr>commit_editmsg := Some message\<rparr>)] = (Inr (), index3)"
    and "commit_editmsg index3 = Some message'"
    and "x_ok index3 (hook_path ''post-commit'' (git_dir index3))"
    and "hook_cmd index3 (hook_path ''post-commit'' (git_dir index3)) = Inr cmd"
    and "popen index3 cmd None = (Exited rc out err, msg)"
    and "rc \<noteq> 0"
  shows "\<exists>c index'. commit index message parent_commits head meta False
           = (Inl (HookExecutionError (hook_path ''post-commit'' (git_dir index3)) (ReturnCode rc)
                (Some err) (Some out)), index')
         \<and> commit_tree c = staged index3 \<and> commit_message c = message'
         \<and> trees index' = staged index3 # trees index3
         \<and> commits index' = c # commits index3
         \<and> head_commit index' = (if head then Some c else head_commit index3)"
proof -
  let ?i4 = "index3\<lparr>commit_editmsg := None\<rparr>"
  let ?e = "HookExecutionError (hook_path ''post-commit'' (git_dir index3)) (ReturnCode rc)
              (Some err) (Some out)"
  obtain t i5 where wt: "write_tree ?i4 = (t, i5)"
    by (cases "write_tree ?i4") auto
  obtain rval i6 where cr: "create_from_tree i5 t message' parent_commits head meta = (rval, i6)"
    by (cases "create_from_tree i5 t message' parent_commits head meta") auto
  from wt cr have f: "git_dir i6 = git_dir index3" "x_ok i6 = x_ok index3"
    "popen i6 = popen index3" "commit_editmsg i6 = None"
    "commit_tree rval = staged index3" "commit_message rval = message'"
    "trees i6 = staged index3 # trees index3" "commits i6 = rval # commits index3"
    "head_commit i6 = (if head then Some rval else head_commit index3)"
    and g: "is_win i6 = is_win index3" "has_file_extension i6 = has_file_extension index3"
    "relative_to i6 = relative_to index3" "working_dir i6 = working_dir index3"
    "bash_path i6 = bash_path index3"
    by (auto simp: create_from_tree_def write_tree_def Let_def split: if_splits)
  have h: "hook_cmd i6 hp = hook_cmd index3 hp" for hp
    by (simp add: hook_cmd_def g split: option.splits)
  from assms(4-7) f h have post:
    "run_commit_hook ''post-commit'' i6 [] = (Inl ?e, i6\<lparr>commit_editmsg := msg\<rparr>)"
    using run_commit_hook_nonzero[of i6 "''post-commit''" cmd "[]" rc out err msg] by simp
  have tail: "commit_tail ?i4 message' parent_commits head meta False
      = (Inl ?e, i6\<lparr>commit_editmsg := msg\<rparr>)"
    by (simp add: commit_tail_def wt cr post)
  have "commit index message parent_commits head meta False = (Inl ?e, i6\<lparr>commit_editmsg := msg\<rparr>)"
    using assms(1-3) tail by (simp add: commit_def Let_def)
  with f show ?thesis
    by (intro exI[of _ rval] exI[of _ "i6\<lparr>commit_editmsg := msg\<rparr>"]) simp
qed

text \<open>
  The claim as stated fails in a repository whose only executable hook is a
  \<^verbatim>\<open>post-commit\<close> hook that exits with 1: \<^verbatim>\<open>commit\<close> does not return the new commit, it
  raises \<^verbatim>\<open>HookExecutionError\<close>, although the commit has been created and \<^verbatim>\<open>HEAD\<close> moved.
\<close>

theorem post_commit_hook_failure_raises:
  "commit example_post_index ''first'' None True ''meta'' False
     = (Inl (HookExecutionError ''/srv/kr/.git/hooks/post-commit'' (ReturnCode 1)
          (Some ''lint failed'') (Some ''checking'')),
        example_post_index\<lparr>trees := [[(''a.md'', ''text'')]], commits := [example_commit],
          head_commit := Some example_commit\<rparr>)"
  by (simp add: commit_def commit_tail_def run_commit_hook_def hook_cmd_def hook_path_def
        write_tree_def create_from_tree_def commit_editmsg_filepath_def Let_def
        example_post_index_def example_index_def example_commit_def)

text \<open>The same repository, with the steps before the \<^verbatim>\<open>post-commit\<close> hook spelled out.\<close>

theorem post_commit_hook_failure_witness:
  "run_commit_hook ''pre-commit'' example_post_index [] = (Inr (), example_post_index)
   \<and> run_commit_hook ''commit-msg'' (example_post_index\<lparr>commit_editmsg := Some ''first''\<rparr>)
        [commit_editmsg_filepath (example_post_index\<lparr>commit_editmsg := Some ''first''\<rparr>)]
       = (Inr (), example_post_index\<lparr>commit_editmsg := Some ''first''\<rparr>)
   \<and> x_ok example_post_index (hook_path ''post-commit'' (git_dir example_post_index))
   \<and> hook_cmd example_post_index (hook_path ''post-commit'' (git_dir example_post_index))
       = Inr [''/srv/kr/.git/hooks/post-commit'']
   \<and> popen example_post_index [''/srv/kr/.git/hooks/post-commit''] None
       = (Exited 1 ''checking'' ''lint failed'', None)
   \<and> (\<exists>c index'. commit example_post_index ''first'' None True ''meta'' False
          = (Inl (HookExecutionError (hook_path ''post-commit'' (git_dir example_post_index))
               (ReturnCode 1) (Some ''lint failed'') (Some ''checking'')), index')
        \<and> commit_message c = ''first'' \<and> commits index' = [c] \<and> head_commit index' = Some c)"
proof -
  let ?i3 = "example_post_index\<lparr>commit_editmsg := Some ''first''\<rparr>"
  have a: "run_commit_hook ''pre-commit'' example_post_index [] = (Inr (), example_post_index)"
    by (simp add: run_commit_hook_def hook_path_def example_post_index_def example_index_def)
  have b: "run_commit_hook ''commit-msg'' ?i3 [commit_editmsg_filepath ?i3] = (Inr (), ?i3)"
    by (simp add: run_commit_hook_def hook_path_def example_post_index_def example_index_def)
  have c: "commit_editmsg ?i3 = Some ''first''" by simp
  have d: "x_ok ?i3 (hook_path ''post-commit'' (git_dir ?i3))"
    by (simp add: hook_path_def example_post_index_def example_index_def)
  have e: "hook_cmd ?i3 (hook_path ''post-commit'' (git_dir ?i3))
      = Inr [''/srv/kr/.git/hooks/post-commit'']"
    by (simp add: hook_cmd_def hook_path_def example_post_index_def example_index_def)
  have f: "popen ?i3 [''/srv/kr/.git/hooks/post-commit''] None
      = (Exited 1 ''checking'' ''lint failed'', None)"
    by (simp add: example_post_index_def example_index_def)
  have g: "(1::int) \<noteq> 0" by simp
  have s: "commits ?i3 = []" "git_dir ?i3 = git_dir example_post_index"
    by (simp_all add: example_post_index_def example_index_def)
  from post_commit_hook_failure[OF a b c d e f g, of None True "''meta''"] s
  have r: "\<exists>c index'. commit example_post_index ''first'' None True ''meta'' False
          = (Inl (HookExecutionError (hook_path ''post-commit'' (git_dir example_post_index))
               (ReturnCode 1) (Some ''lint failed'') (Some ''checking'')), index')
        \<and> commit_message c = ''first'' \<and> commits index' = [c] \<and> head_commit index' = Some c"
    by auto
  have d': "x_ok example_post_index (hook_path ''post-commit'' (git_dir example_post_index))"
    by (simp add: hook_path_def example_post_index_def example_index_def)
  have e': "hook_cmd example_post_index (hook_path ''post-commit'' (git_dir example_post_index))
       = Inr [''/srv/kr/.git/hooks/post-commit'']"
    by (simp add: hook_cmd_def hook_path_def example_post_index_def example_index_def)
  have f': "popen example_post_index [''/srv/kr/.git/hooks/post-commit''] None
       = (Exited 1 ''checking'' ''lint failed'', None)"
    by (simp add: example_post_index_def example_index_def)
  from a b d' e' f' r show ?thesis by blast
qed

end
